theory Spec2Isabelle
  imports Complex_Main "HOL-Library.Word" "HOL-Library.Code_Target_Nat"
begin

section \<open>The finite model builder: data\<close>

text \<open>
  The encoder of \<open>FiniteModelBuilder.cpp\<close> works on C++ \<open>unsigned\<close> values: domain
  elements, model sizes, bounds and propositional variables are 32-bit words, and their
  arithmetic wraps around. Symbol numbers, arities and array indices are natural numbers.

  The model covers \<open>reset\<close>, the clause generators, \<open>getSATLiteral\<close>, \<open>runImpl\<close> and
  \<open>onModelFound\<close>; \<open>init\<close> is taken as done, its results being fields of the state. The
  \<open>ASS\<close> assertions of the source check internal invariants and are compiled out of
  release builds; they are not part of the model.
\<close>

type_synonym u32 = "32 word"

definition UINT_MAX :: u32 where
  "UINT_MAX = - 1"

text \<open>A \<open>SATLiteral\<close>: a propositional variable and a polarity.\<close>

datatype SATLiteral = SATLiteral (var: u32) (polarity: bool)

type_synonym SATClause = "SATLiteral list"

text \<open>
  Flat literals, as \<open>ClauseFlattening\<close> leaves them: an equality between two variables,
  a definition equality \<open>f(x\<^sub>1,\<dots>,x\<^sub>k) = y\<close> over variables, or a predicate atom over
  variables. The first component is the polarity; variables are numbered from 0.
\<close>

datatype Literal =
    TwoVarEquality bool nat nat
  | Equality bool nat "nat list" nat
  | Predicate bool nat "nat list"

fun isPositive :: "Literal \<Rightarrow> bool" where
  "isPositive (TwoVarEquality pol x y) = pol"
| "isPositive (Equality pol f args y) = pol"
| "isPositive (Predicate pol p args) = pol"

text \<open>The predicate symbol of a literal; equality is predicate 0.\<close>

fun functor_of :: "Literal \<Rightarrow> nat" where
  "functor_of (TwoVarEquality pol x y) = 0"
| "functor_of (Equality pol f args y) = 0"
| "functor_of (Predicate pol p args) = p"

datatype Clause = Clause (literals: "Literal list") (varCnt: nat)

text \<open>A grounded term \<open>(f, grounding)\<close> of the symmetry breaking.\<close>

datatype GroundedTerm = GroundedTerm (gt_f: nat) (gt_grounding: u32)

datatype FMBWidgetOrders = FUNCTION_FIRST | ARGUMENT_FIRST | DIAGONAL

text \<open>\<open>SATSolver::Status\<close> and the termination reasons of \<open>Statistics\<close>.\<close>

datatype Status = SAT_SATISFIABLE | SAT_UNSATISFIABLE | SAT_UNKNOWN

datatype TerminationReason = SATISFIABLE | REFUTATION | TIME_LIMIT | UNKNOWN

text \<open>
  The state of a \<open>FiniteModelBuilder\<close> after \<open>init\<close>, together with what it reads from
  the signature, the options and the problem's property. Arrays indexed by a symbol or
  a sort are functions. \<open>solverVarCount\<close> is \<open>None\<close> while no solver has been allocated
  and holds the argument of \<open>ensureVarCount\<close> afterwards. \<open>symmetryRatio\<close> is the value
  of the option; the member \<open>_symmetryRatio\<close> is a \<open>float\<close>, so the value is rounded to
  single precision where it is used.
\<close>

record fmb =
  f_offsets :: "nat \<Rightarrow> u32"
  p_offsets :: "nat \<Rightarrow> u32"
  sig_functions :: nat
  sig_predicates :: nat
  functionArity :: "nat \<Rightarrow> nat"
  predicateArity :: "nat \<Rightarrow> nat"
  functionIntroduced :: "nat \<Rightarrow> bool"
  predicateIntroduced :: "nat \<Rightarrow> bool"
  del_f :: "nat \<Rightarrow> bool"
  del_p :: "nat \<Rightarrow> bool"
  partiallyDeletedPredicates :: "nat \<Rightarrow> bool"
  trivialPredicates :: "nat \<Rightarrow> bool option"
  sorts :: nat
  sortedConstants :: "nat \<Rightarrow> nat list"
  sortedFunctions :: "nat \<Rightarrow> nat list"
  functionBounds :: "nat \<Rightarrow> nat \<Rightarrow> u32"
  predicateBounds :: "nat \<Rightarrow> nat \<Rightarrow> u32"
  groundClauses :: "Clause list"
  clauses :: "Clause list"
  clauseBounds :: "Clause \<Rightarrow> nat \<Rightarrow> u32"
  isComplete :: bool
  maxModelSize :: u32
  constantCount :: u32
  maxArity :: nat
  startModelSize :: u32
  useConstantsAsStart :: bool
  symmetryRatio :: rat
  widgetOrder :: FMBWidgetOrders
  categoryEPR :: bool
  proofOff :: bool
  solverVarCount :: "u32 option"
  sortedGroundedTerms :: "nat \<Rightarrow> GroundedTerm list"

section \<open>Variable addressing\<close>

text \<open>
  The loop of \<open>getSATLiteral\<close>:
  \<^verbatim>\<open>for(i=0;i<grounding.size();i++){ var += mult*(grounding[i]-1); mult *= size; }\<close>
\<close>

fun satVarLoop :: "u32 \<Rightarrow> u32 \<Rightarrow> u32 \<Rightarrow> u32 list \<Rightarrow> u32" where
  "satVarLoop n v mult [] = v"
| "satVarLoop n v mult (g # gs) = satVarLoop n (v + mult * (g - 1)) (mult * n) gs"

definition getSATLiteral ::
  "('a fmb_scheme) \<Rightarrow> nat \<Rightarrow> u32 list \<Rightarrow> bool \<Rightarrow> bool \<Rightarrow> u32 \<Rightarrow> SATLiteral" where
  "getSATLiteral st f grounding pol isFunction n =
     (let offset = (if isFunction then f_offsets st f else p_offsets st f)
      in SATLiteral (satVarLoop n offset 1 grounding) pol)"


section \<open>Handing clauses over\<close>

text \<open>
  Modelled from the spec: \<open>Preprocess::removeDuplicateLiterals\<close> is not among the
  sources. The spec says that a SAT clause is passed on "after duplicate-literal
  removal"; the result is optional because \<open>addSATClause\<close> tests it for null.
\<close>

definition removeDuplicateLiterals :: "SATClause \<Rightarrow> SATClause option" where
  "removeDuplicateLiterals cl = Some (remdups cl)"

text \<open>
  \<open>addSATClause\<close> pushes the cleaned clause on \<open>_clausesToBeAdded\<close>. The model returns
  the clauses pushed, and each encoder function returns the list of clauses it pushes.
\<close>

definition addSATClause :: "SATClause \<Rightarrow> SATClause list" where
  "addSATClause cl = (case removeDuplicateLiterals cl of None \<Rightarrow> [] | Some c \<Rightarrow> [c])"

section \<open>The mixed-radix counter\<close>

text \<open>
  The encoder enumerates groundings with a labelled loop:
  \<^verbatim>\<open>
  label:
    for(unsigned i=k-1;i+1!=0;i--){
      if(grounding[i]==mins[i]){ grounding[i]=1; }
      else{ grounding[i]++; BODY; goto label; }
    }
  \<close>
  \<open>nextGrounding\<close> is one run of the \<open>for\<close> loop up to \<open>BODY\<close>: its first argument is
  \<open>i+1\<close>, and the result is \<open>None\<close> when the loop runs out, which ends the enumeration.
\<close>

fun nextGrounding :: "nat \<Rightarrow> u32 list \<Rightarrow> u32 list \<Rightarrow> u32 list option" where
  "nextGrounding 0 mins grounding = None"
| "nextGrounding (Suc i) mins grounding =
     (if grounding ! i = mins ! i then nextGrounding i mins (grounding[i := 1])
      else Some (grounding[i := grounding ! i + 1]))"

text \<open>
  The same step on reversed lists, by structural recursion; it is used to reason about
  \<open>nextGrounding\<close>.
\<close>

fun incr :: "u32 list \<Rightarrow> u32 list \<Rightarrow> u32 list option" where
  "incr (m # ms) (a # as) =
     (if a = m then map_option ((#) 1) (incr ms as) else Some ((a + 1) # as))"
| "incr ms as = None"

text \<open>A number that decreases with every step of the counter.\<close>

fun counterMeasure :: "u32 list \<Rightarrow> u32 list \<Rightarrow> nat" where
  "counterMeasure (m # ms) (a # as) = unat (m - a) + 2 ^ 32 * counterMeasure ms as"
| "counterMeasure ms as = 0"

definition minsOf :: "u32 list \<Rightarrow> nat \<Rightarrow> u32 list" where
  "minsOf mins k = map ((!) mins) [0..<k]"


text \<open>
  Before the loop the encoder sets every entry of \<open>grounding\<close> to 1 and the last one to 0,
  so that the first step yields the all-ones grounding.
\<close>

definition initialGrounding :: "nat \<Rightarrow> u32 list" where
  "initialGrounding k = (replicate k 1)[k - 1 := 0]"

text \<open>The order in which the counter runs through groundings, on reversed lists.\<close>

fun colexLess :: "u32 list \<Rightarrow> u32 list \<Rightarrow> bool" where
  "colexLess (a # as) (b # bs) = (colexLess as bs \<or> (as = bs \<and> a < b))"
| "colexLess as bs = False"

section \<open>The counter ends\<close>

lemma nextGrounding_length:
  "nextGrounding i mins g = Some g' \<Longrightarrow> length g' = length g"
  by (induction i arbitrary: g) (auto split: if_splits)

lemma nextGrounding_minsOf:
  "i \<le> k \<Longrightarrow> nextGrounding i (minsOf mins k) g = nextGrounding i mins g"
  by (induction i arbitrary: g) (auto simp: minsOf_def)

lemma nextGrounding_incr_aux:
  "length ms = length pg \<Longrightarrow>
   nextGrounding (length pg) (ms @ s) (pg @ s')
     = map_option (\<lambda>r. rev r @ s') (incr (rev ms) (rev pg))"
proof (induction pg arbitrary: ms s s' rule: rev_induct)
  case Nil
  then show ?case by simp
next
  case (snoc a pg)
  then obtain m ms' where ms: "ms = ms' @ [m]" and len: "length ms' = length pg"
    by (cases ms rule: rev_cases) auto
  have upd: "\<And>v. (pg @ a # s')[length pg := v] = pg @ v # s'"
    by (simp add: list_update_append)
  show ?case
  proof (cases "a = m")
    case True
    have "nextGrounding (length pg) (ms' @ m # s) (pg @ 1 # s')
        = map_option (\<lambda>r. rev r @ 1 # s') (incr (rev ms') (rev pg))"
      using snoc.IH [OF len, of "m # s" "1 # s'"] by simp
    then show ?thesis
      using True len by (simp add: ms nth_append upd option.map_comp comp_def)
  next
    case False
    then show ?thesis
      using len by (simp add: ms nth_append upd)
  qed
qed

lemma nextGrounding_incr:
  "length ms = length g \<Longrightarrow>
   nextGrounding (length g) ms g = map_option rev (incr (rev ms) (rev g))"
  using nextGrounding_incr_aux [of ms g "[]" "[]"] by simp

lemma counterMeasure_less: "counterMeasure ms as < 2 ^ (32 * length as)"
proof (induction ms as rule: counterMeasure.induct)
  case (1 m ms a as)
  have "unat (m - a) < 2 ^ 32" using unsigned_less [of "m - a"] by simp
  then have "unat (m - a) + 2 ^ 32 * counterMeasure ms as < 2 ^ 32 * (counterMeasure ms as + 1)"
    by simp
  also have "\<dots> \<le> 2 ^ 32 * 2 ^ (32 * length as)"
    using 1 by (intro mult_le_mono2) simp
  finally show ?case by (simp add: power_add)
qed simp_all

lemma unat_sub_succ: "a \<noteq> m \<Longrightarrow> unat (m - (a + 1)) < unat (m - (a::u32))"
proof -
  assume "a \<noteq> m"
  then have "m - a \<noteq> 0" by simp
  then have "unat (m - a - 1) < unat (m - a)"
    by (metis (no_types) diff_less unat_minus_one unat_gt_0 zero_less_one word_neq_0_conv unsigned_eq_0_iff)
  then show ?thesis by (simp add: algebra_simps)
qed

lemma incr_decreases:
  "incr ms as = Some bs \<Longrightarrow> counterMeasure ms bs < counterMeasure ms as"
proof (induction ms as arbitrary: bs rule: incr.induct)
  case (1 m ms a as)
  show ?case
  proof (cases "a = m")
    case True
    with 1 obtain cs where cs: "incr ms as = Some cs" and bs: "bs = 1 # cs" by auto
    from 1(1) [OF True cs] have "counterMeasure ms cs + 1 \<le> counterMeasure ms as" by simp
    then have "2 ^ 32 * (counterMeasure ms cs + 1) \<le> 2 ^ 32 * counterMeasure ms as"
      by (rule mult_le_mono2)
    moreover have "unat (m - 1) < 2 ^ 32" using unsigned_less [of "m - 1"] by simp
    ultimately show ?thesis using True bs by simp
  next
    case False
    with 1 have bs: "bs = (a + 1) # as" by simp
    show ?thesis using unat_sub_succ [OF False] by (simp add: bs)
  qed
qed simp_all


lemma nextGrounding_decreases:
  assumes "nextGrounding (length g) mins g = Some g'"
  shows "counterMeasure (rev (minsOf mins (length g'))) (rev g')
       < counterMeasure (rev (minsOf mins (length g))) (rev g)"
proof -
  let ?ms = "minsOf mins (length g)"
  have len: "length ?ms = length g" by (simp add: minsOf_def)
  have "nextGrounding (length g) ?ms g = Some g'"
    using assms by (simp add: nextGrounding_minsOf)
  then have "map_option rev (incr (rev ?ms) (rev g)) = Some g'"
    by (simp add: nextGrounding_incr [OF len])
  then obtain bs where bs: "incr (rev ?ms) (rev g) = Some bs" and g': "g' = rev bs"
    by auto
  have "length g' = length g" using assms by (rule nextGrounding_length)
  then show ?thesis
    using incr_decreases [OF bs] by (simp add: g')
qed

text \<open>
  The enumeration itself: the list of groundings at which \<open>BODY\<close> runs, in order,
  starting from the initial contents of \<open>grounding\<close>.
\<close>

function groundings :: "u32 list \<Rightarrow> u32 list \<Rightarrow> u32 list list" where
  "groundings mins grounding =
     (case nextGrounding (length grounding) mins grounding of
        None \<Rightarrow> []
      | Some g' \<Rightarrow> g' # groundings mins g')"
  by pat_completeness auto
termination
  by (relation "measure (\<lambda>(mins, g). counterMeasure (rev (minsOf mins (length g))) (rev g))")
     (auto simp: nextGrounding_decreases)

declare groundings.simps [simp del]

section \<open>The encoder\<close>

text \<open>
  The values taken by the loop variable of \<^verbatim>\<open>for(unsigned m=1;m<=size;m++)\<close>. When
  \<open>size\<close> is \<open>UINT_MAX\<close> the test \<open>m<=size\<close> never fails and the loop does not end: the
  result is \<open>None\<close>. Throughout the encoder \<open>None\<close> stands for a call that does not
  return normally (a loop that does not end, or a read outside an array).
\<close>

definition elements :: "u32 \<Rightarrow> u32 list option" where
  "elements n = (if n = UINT_MAX then None else Some (map of_nat [1..<Suc (unat n)]))"

subsection \<open>reset\<close>

text \<open>
  One offset loop of \<open>reset\<close>; \<open>k\<close> is 2 in the loop over functions
  (\<open>pow(size,arity+2)\<close>) and 1 in the loop over predicates (\<open>pow(size,arity+1)\<close>). The
  result of \<open>pow\<close> is a \<open>double\<close> converted to \<open>unsigned\<close>: the model takes the power in
  32-bit arithmetic, which is the converted value whenever the exact power fits in 32
  bits (the conversion of a larger value is undefined in C++). The first component of
  the result is \<open>False\<close> when the loop returns false.
\<close>

fun assignOffsets ::
  "u32 \<Rightarrow> nat \<Rightarrow> (nat \<Rightarrow> bool) \<Rightarrow> (nat \<Rightarrow> nat) \<Rightarrow> nat list \<Rightarrow> u32 \<Rightarrow> (nat \<Rightarrow> u32)
     \<Rightarrow> bool \<times> u32 \<times> (nat \<Rightarrow> u32)" where
  "assignOffsets n k del arity [] offsets offs = (True, offsets, offs)"
| "assignOffsets n k del arity (f # fs) offsets offs =
     (if del f then assignOffsets n k del arity fs offsets offs
      else
        let offs' = offs(f := offsets);
            add = n ^ (arity f + k)
        in if UINT_MAX - add < offsets then (False, offsets, offs')
           else assignOffsets n k del arity fs (offsets + add) offs')"

text \<open>
  The body of the loops that fill \<open>_sortedGroundedTerms[s]\<close>: the function \<open>fn\<close> with the
  argument index \<open>grounding\<close> is pushed unless its range is bounded below \<open>size\<close> or one
  of its argument sorts is bounded below \<open>grounding\<close>.
\<close>

definition widget :: "'a fmb_scheme \<Rightarrow> u32 \<Rightarrow> nat \<Rightarrow> u32 \<Rightarrow> GroundedTerm list" where
  "widget st n fn grounding =
     (if functionBounds st fn 0 < n then []
      else if list_ex (\<lambda>i. functionBounds st fn (i + 1) < grounding) [0..<functionArity st fn]
      then []
      else [GroundedTerm fn grounding])"

definition groundedTermsOf :: "'a fmb_scheme \<Rightarrow> u32 \<Rightarrow> nat \<Rightarrow> GroundedTerm list option" where
  "groundedTermsOf st n s =
     (let cs = map (\<lambda>c. GroundedTerm c 0) (sortedConstants st s);
          fs = sortedFunctions st s
      in case widgetOrder st of
           FUNCTION_FIRST \<Rightarrow>
             (if fs = [] then Some cs
              else map_option
                     (\<lambda>ms. cs @ concat (map (\<lambda>fn. concat (map (widget st n fn) ms)) fs))
                     (elements n))
         | ARGUMENT_FIRST \<Rightarrow>
             map_option
               (\<lambda>ms. cs @ concat (map (\<lambda>m. concat (map (\<lambda>fn. widget st n fn m) fs)) ms))
               (elements n)
         | DIAGONAL \<Rightarrow>
             map_option
               (\<lambda>ms. cs @ concat (map (\<lambda>m. concat (map
                          (\<lambda>(f, fn). widget st n fn (1 + (m + of_nat f) mod n))
                          (enumerate 0 fs))) ms))
               (elements n))"

text \<open>
  \<open>reset\<close> returns its boolean together with the new state. When it returns false the
  offsets written so far stay written and no solver is allocated.
\<close>

definition reset :: "'a fmb_scheme \<Rightarrow> u32 \<Rightarrow> (bool \<times> 'a fmb_scheme) option" where
  "reset st n =
     (case assignOffsets n 2 (del_f st) (functionArity st) [0..<sig_functions st] 1
             (f_offsets st) of
        (okf, offsets, fo) \<Rightarrow>
          if \<not> okf then Some (False, st\<lparr>f_offsets := fo\<rparr>)
          else
            (case assignOffsets n 1 (del_p st) (predicateArity st) [1..<sig_predicates st]
                    offsets (p_offsets st) of
               (okp, offsets', po) \<Rightarrow>
                 if \<not> okp then Some (False, st\<lparr>f_offsets := fo, p_offsets := po\<rparr>)
                 else
                   (case those (map (groundedTermsOf st n) [0..<sorts st]) of
                      None \<Rightarrow> None
                    | Some gts \<Rightarrow>
                        Some (True, st\<lparr>f_offsets := fo, p_offsets := po,
                                solverVarCount := Some (offsets' + 1),
                                sortedGroundedTerms :=
                                  (\<lambda>s. if s < sorts st then gts ! s
                                       else sortedGroundedTerms st s)\<rparr>))))"

subsection \<open>Ground clauses and clause instances\<close>

definition addGroundClauses :: "'a fmb_scheme \<Rightarrow> SATClause list" where
  "addGroundClauses st =
     concat (map (\<lambda>c. addSATClause
                        (map (\<lambda>l. getSATLiteral st (functor_of l) [] (isPositive l) False 0)
                             (literals c)))
                 (groundClauses st))"

text \<open>
  The loop over the literals of a clause under a grounding. \<open>None\<close> is
  \<open>goto instanceLabel\<close> (skip the instance); a two-variable equality that is false under
  the grounding is skipped by \<open>continue\<close> (the second test of the source is the negation
  of the first, so such a literal never reaches the code below it).
\<close>

fun groundLiterals ::
  "'a fmb_scheme \<Rightarrow> u32 \<Rightarrow> u32 list \<Rightarrow> Literal list \<Rightarrow> SATLiteral list \<Rightarrow> SATLiteral list option"
  where
  "groundLiterals st n g [] satClauseLits = Some satClauseLits"
| "groundLiterals st n g (TwoVarEquality pol x y # ls) satClauseLits =
     (let equal = (g ! x = g ! y)
      in if (pol \<and> equal) \<or> (\<not> pol \<and> \<not> equal) then None
         else groundLiterals st n g ls satClauseLits)"
| "groundLiterals st n g (Equality pol f args y # ls) satClauseLits =
     (let use = map (\<lambda>v. g ! v) args @ [g ! y]
      in groundLiterals st n g ls (satClauseLits @ [getSATLiteral st f use pol True n]))"
| "groundLiterals st n g (Predicate pol p args # ls) satClauseLits =
     (let use = map (\<lambda>v. g ! v) args
      in groundLiterals st n g ls (satClauseLits @ [getSATLiteral st p use pol False n]))"

text \<open>
  The body of the loop of \<open>addNewInstances\<close> for one clause: the counter runs over the
  groundings of its variables, each bounded by the smaller of its sort bound and the
  size, and every instance that is not skipped goes to \<open>addSATClause\<close>.
\<close>

definition instancesOf :: "'a fmb_scheme \<Rightarrow> u32 \<Rightarrow> Clause \<Rightarrow> SATClause list" where
  "instancesOf st n c =
     (let fvars = varCnt c;
          mins = map (\<lambda>i. min (clauseBounds st c i) n) [0..<fvars]
      in concat (map (\<lambda>g. case groundLiterals st n g (literals c) [] of
                             None \<Rightarrow> []
                           | Some lits \<Rightarrow> addSATClause lits)
                     (groundings mins (initialGrounding fvars))))"

definition addNewInstances :: "'a fmb_scheme \<Rightarrow> u32 \<Rightarrow> SATClause list" where
  "addNewInstances st n = concat (map (instancesOf st n) (clauses st))"

subsection \<open>Functionality and totality\<close>

text \<open>
  In \<open>addNewFunctionalDefs\<close> the counter has \<open>arity+2\<close> digits: the two images at
  positions 0 and 1, the arguments after them.
\<close>

definition functionalDefsOf :: "'a fmb_scheme \<Rightarrow> u32 \<Rightarrow> nat \<Rightarrow> SATClause list" where
  "functionalDefsOf st n f =
     (let arity = functionArity st f;
          bounds = functionBounds st f;
          mins = [min (bounds 0) n, min (bounds 0) n]
                 @ map (\<lambda>i. min (bounds (i - 1)) n) [2..<arity + 2]
      in concat (map (\<lambda>g. if g ! 0 \<ge> g ! 1 then []
                           else
                             let args = map (\<lambda>k. g ! (k + 2)) [0..<arity]
                             in addSATClause
                                  [getSATLiteral st f (args @ [g ! 0]) False True n,
                                   getSATLiteral st f (args @ [g ! 1]) False True n])
                     (groundings mins (initialGrounding (arity + 2)))))"

definition addNewFunctionalDefs :: "'a fmb_scheme \<Rightarrow> u32 \<Rightarrow> SATClause list" where
  "addNewFunctionalDefs st n =
     concat (map (\<lambda>f. if del_f st f then [] else functionalDefsOf st n f)
                 [0..<sig_functions st])"

text \<open>
  In \<open>addNewTotalityDefs\<close> a constant gets one clause over the images within its range
  bound; for a proper function the counter runs over the arguments and every grounding
  gets such a clause.
\<close>

definition totalityDefsOf :: "'a fmb_scheme \<Rightarrow> u32 \<Rightarrow> nat \<Rightarrow> SATClause list" where
  "totalityDefsOf st n f =
     (let arity = functionArity st f;
          bounds = functionBounds st f;
          images = map (\<lambda>j. of_nat j + 1) [0..<unat (min n (bounds 0))]
      in if arity = 0
         then addSATClause (map (\<lambda>e. getSATLiteral st f [e] True True n) images)
         else
           let mins = map (\<lambda>i. min (bounds (i + 1)) n) [0..<arity]
           in concat (map (\<lambda>g. addSATClause
                                   (map (\<lambda>e. getSATLiteral st f
                                               (map (\<lambda>k. g ! k) [0..<arity] @ [e]) True True n)
                                        images))
                          (groundings mins (initialGrounding arity))))"

definition addNewTotalityDefs :: "'a fmb_scheme \<Rightarrow> u32 \<Rightarrow> SATClause list" where
  "addNewTotalityDefs st n =
     concat (map (\<lambda>f. if del_f st f then [] else totalityDefsOf st n f)
                 [0..<sig_functions st])"


subsection \<open>Symmetry breaking\<close>

text \<open>
  The array built for a grounded term: \<open>arity\<close> copies of its argument index, then the
  image.
\<close>

definition termTuple :: "'a fmb_scheme \<Rightarrow> GroundedTerm \<Rightarrow> u32 \<Rightarrow> u32 list" where
  "termTuple st gt img = replicate (functionArity st (gt_f gt)) (gt_grounding gt) @ [img]"

text \<open>
  \<open>addNewSymmetryOrderingAxioms\<close>. With \<open>size = 0\<close> the test
  \<open>groundedTerms.length() < size\<close> fails and \<open>groundedTerms[size-1]\<close> is read outside the
  stack.
\<close>

definition addNewSymmetryOrderingAxioms ::
  "'a fmb_scheme \<Rightarrow> u32 \<Rightarrow> GroundedTerm list \<Rightarrow> SATClause list option" where
  "addNewSymmetryOrderingAxioms st n groundedTerms =
     (if length groundedTerms < unat n then Some []
      else if \<not> unat (n - 1) < length groundedTerms then None
      else
        let gt = groundedTerms ! unat (n - 1)
        in map_option
             (\<lambda>es. addSATClause
                     (map (\<lambda>i. getSATLiteral st (gt_f gt) (termTuple st gt i) True True n) es))
             (elements n))"

text \<open>
  Single-precision arithmetic. \<open>_symmetryRatio\<close> is a \<open>float\<close>, so in
  \<^verbatim>\<open>unsigned w = _symmetryRatio * maxSize;\<close> the bound is converted to \<open>float\<close>, the product
  is formed in \<open>float\<close>, and the result is converted to \<open>unsigned\<close>. A finite \<open>float\<close> is
  the rational number it denotes; \<open>toFloat\<close> rounds a rational to the nearest one, ties to
  the even significand (24 bits, smallest exponent -126, so that subnormal numbers are
  covered). Infinities and NaN are not represented: the ratio is an option between 0 and
  1, and no product with a 32-bit bound leaves the finite range.
\<close>

fun bitLength :: "nat \<Rightarrow> nat" where
  "bitLength n = (if n = 0 then 0 else Suc (bitLength (n div 2)))"

declare bitLength.simps [simp del]

text \<open>The exponent \<open>e\<close> of a positive rational: \<open>2^e \<le> x < 2^(e+1)\<close>.\<close>

definition floorLog2 :: "rat \<Rightarrow> int" where
  "floorLog2 x =
     (if 1 \<le> x then int (bitLength (nat \<lfloor>x\<rfloor>)) - 1
      else - int (bitLength (nat (\<lceil>1 / x\<rceil> - 1))))"

definition pow2 :: "int \<Rightarrow> rat" where
  "pow2 k = (if 0 \<le> k then 2 ^ nat k else 1 / 2 ^ nat (- k))"

definition roundToEven :: "rat \<Rightarrow> int" where
  "roundToEven q =
     (let f = \<lfloor>q\<rfloor>; r = q - of_int f
      in if r < 1 / 2 then f else if 1 / 2 < r then f + 1 else if even f then f else f + 1)"

definition toFloat :: "rat \<Rightarrow> rat" where
  "toFloat x =
     (if x = 0 then 0
      else
        let a = \<bar>x\<bar>;
            e = max (floorLog2 a) (- 126);
            ulp = pow2 (e - 23)
        in sgn x * of_int (roundToEven (a / ulp)) * ulp)"

text \<open>
  The conversion of a \<open>float\<close> to \<open>unsigned\<close> drops the fractional part. For a value
  outside the range of \<open>unsigned\<close> the language leaves the result undefined; the
  conversion is taken as it is compiled for 64-bit targets, through a 64-bit integer of
  which the low 32 bits are kept, so that \<open>4294967296.0f\<close> gives 0.
\<close>

definition floatToUnsigned :: "rat \<Rightarrow> u32" where
  "floatToUnsigned p = of_int (if 0 \<le> p then \<lfloor>p\<rfloor> else \<lceil>p\<rceil>)"

text \<open>The product \<^verbatim>\<open>_symmetryRatio * maxSize\<close>, a \<open>float\<close>.\<close>

definition symmetryProduct :: "'a fmb_scheme \<Rightarrow> u32 \<Rightarrow> rat" where
  "symmetryProduct st maxSize =
     toFloat (toFloat (symmetryRatio st) * toFloat (of_nat (unat maxSize)))"

text \<open>
  The window of the canonicity axioms, \<^verbatim>\<open>unsigned w = _symmetryRatio * maxSize;\<close>
  cut down to the number of grounded terms.
\<close>

definition canonicityWindow :: "'a fmb_scheme \<Rightarrow> GroundedTerm list \<Rightarrow> u32 \<Rightarrow> nat" where
  "canonicityWindow st groundedTerms maxSize =
     (let w = unat (floatToUnsigned (symmetryProduct st maxSize))
      in if w > length groundedTerms then length groundedTerms else w)"

text \<open>
  \<open>addNewSymmetryCanonicityAxioms\<close>, in two layers. \<open>canonicityCalls\<close> lists, clause by
  clause, the calls of \<open>getSATLiteral\<close> the function makes: the symbol, the grounding
  array and the polarity of each. The inner loop pushes one positive literal per
  earlier grounded term onto the stack that already holds the negative one.
\<close>

definition canonicityCalls ::
  "'a fmb_scheme \<Rightarrow> u32 \<Rightarrow> GroundedTerm list \<Rightarrow> u32 \<Rightarrow> (nat \<times> u32 list \<times> bool) list list" where
  "canonicityCalls st n groundedTerms maxSize =
     (if n \<le> 1 then []
      else
        let w = canonicityWindow st groundedTerms maxSize
        in foldl (\<lambda>cls i.
                    let gti = groundedTerms ! i;
                        first = [(gt_f gti, termTuple st gti n, False)]
                    in cls @ [foldl (\<lambda>lits j.
                                       let gtj = groundedTerms ! j
                                       in lits @ [(gt_f gtj, termTuple st gtj (n - 1), True)])
                                    first [0..<i]])
                 [] [1..<w])"

definition addNewSymmetryCanonicityAxioms ::
  "'a fmb_scheme \<Rightarrow> u32 \<Rightarrow> GroundedTerm list \<Rightarrow> u32 \<Rightarrow> SATClause list" where
  "addNewSymmetryCanonicityAxioms st n groundedTerms maxSize =
     concat (map (\<lambda>calls. addSATClause
                            (map (\<lambda>(f, grounding, pol). getSATLiteral st f grounding pol True n)
                                 calls))
                 (canonicityCalls st n groundedTerms maxSize))"

text \<open>
  Modelled from the spec: \<open>addNewSymmetryAxioms\<close> is defined in the class declaration,
  which is not among the sources. By the spec the two symmetry layers are emitted for
  each sort \<open>s\<close> on \<open>groundedTerms[s]\<close>, and the \<open>maxSize\<close> of the canonicity window is the
  current model-size upper bound.
\<close>

definition addNewSymmetryAxioms :: "'a fmb_scheme \<Rightarrow> u32 \<Rightarrow> SATClause list option" where
  "addNewSymmetryAxioms st n =
     map_option concat
       (those (map (\<lambda>s. map_option
                           (\<lambda>ord. ord @ addNewSymmetryCanonicityAxioms st n
                                           (sortedGroundedTerms st s) (maxModelSize st))
                           (addNewSymmetryOrderingAxioms st n (sortedGroundedTerms st s)))
                   [0..<sorts st]))"

subsection \<open>The clauses of a round\<close>

text \<open>
  The contents of \<open>_clausesToBeAdded\<close> when the solver is called, in the order in which
  \<open>runImpl\<close> fills it.
\<close>

definition encode :: "'a fmb_scheme \<Rightarrow> u32 \<Rightarrow> SATClause list option" where
  "encode st n =
     map_option
       (\<lambda>sym. addGroundClauses st @ addNewInstances st n @ addNewFunctionalDefs st n
               @ sym @ addNewTotalityDefs st n)
       (addNewSymmetryAxioms st n)"

text \<open>A propositional assignment satisfies a clause set.\<close>

definition satisfies :: "(u32 \<Rightarrow> bool) \<Rightarrow> SATClause list \<Rightarrow> bool" where
  "satisfies asg cls = list_all (list_ex (\<lambda>l. asg (var l) = polarity l)) cls"

section \<open>The search loop\<close>

text \<open>
  The interpretation that \<open>onModelFound\<close> materialises: the calls of
  \<open>addConstantDefinition\<close>, \<open>addFunctionDefinition\<close>, \<open>addPropositionalDefinition\<close> and
  \<open>addPredicateDefinition\<close> on a \<open>FiniteModel\<close> of the given size, in order.
\<close>

record FiniteModel =
  fm_size :: u32
  constantDefinitions :: "(nat \<times> u32) list"
  functionDefinitions :: "(nat \<times> u32 list \<times> u32) list"
  propositionalDefinitions :: "(nat \<times> bool) list"
  predicateDefinitions :: "(nat \<times> u32 list \<times> bool) list"

text \<open>
  What the last loop of \<open>onModelFound\<close> reads off the definition kept for an eliminated
  predicate (the \<open>switch\<close> on its connective): the constant true or false (\<open>pure\<close>, with
  the polarity); a universally quantified equivalence with the predicate's atom on one
  side, with the polarity that the negations on both sides and the atom's own polarity
  add up to; or anything else, for which \<open>predDef\<close> stays null and the symbol is skipped.
\<close>

datatype RemovedDefinition = PureTrue | PureFalse | Equivalence bool | Unusable

text \<open>
  What the loop consumes from outside: the SAT solver (its verdict and its assignment
  for a variable count and a clause set), the clock polled at the start of each round,
  and, for the two "Evaluate removed" loops of \<open>onModelFound\<close>, the definitions kept for
  eliminated symbols and their values in the model built so far. The definitions are
  terms and formulas, and the values come from \<open>FiniteModel::evaluateGroundTerm\<close> and
  \<open>FiniteModel::evaluate\<close> after \<open>SubstHelper::apply\<close>, none of them among the sources;
  a value \<open>None\<close> is a \<open>UserErrorException\<close>, which the loops catch.
\<close>

record extern =
  solve :: "u32 \<Rightarrow> SATClause list \<Rightarrow> Status"
  trueInAssignment :: "u32 \<Rightarrow> SATClause list \<Rightarrow> SATLiteral \<Rightarrow> bool"
  timeLimitReached :: "nat \<Rightarrow> bool"
  removedDefinition :: "nat \<Rightarrow> RemovedDefinition"
  evaluateGroundTerm :: "FiniteModel \<Rightarrow> nat \<Rightarrow> u32 list \<Rightarrow> u32 option"
  evaluate :: "FiniteModel \<Rightarrow> nat \<Rightarrow> u32 list \<Rightarrow> bool option"

text \<open>
  The result of \<open>runImpl\<close>: the termination reason, the refutation clause if any, and
  \<open>env.statistics->model\<close>, which only \<open>onModelFound\<close> sets.
\<close>

datatype Result =
  Result (terminationReason: TerminationReason) (refutation: "Clause option")
         (statisticsModel: "FiniteModel option")

text \<open>
  \<open>onModelFound\<close> reads the interpretation off the assignment \<open>tr\<close> in four loops, one
  per kind of symbol; \<open>recordIntroduced\<close> is the constant \<open>false\<close> of the source. The loops
  over constants and functions run through the domain with \<open>c<=modelSize\<close> and do not end
  at size \<open>UINT_MAX\<close>.
\<close>

definition recordConstants ::
  "'a fmb_scheme \<Rightarrow> (SATLiteral \<Rightarrow> bool) \<Rightarrow> u32 \<Rightarrow> (nat \<times> u32) list option" where
  "recordConstants st tr modelSize =
     (let recordIntroduced = False
      in map_option concat (those (map (\<lambda>f.
           if functionArity st f > 0 then Some []
           else if \<not> recordIntroduced \<and> functionIntroduced st f then Some []
           else if del_f st f then Some []
           else map_option
                  (\<lambda>cs. map (\<lambda>c. (f, c))
                          (filter (\<lambda>c. tr (getSATLiteral st f [c] True True modelSize)) cs))
                  (elements modelSize))
         [0..<sig_functions st])))"

definition recordFunctions ::
  "'a fmb_scheme \<Rightarrow> (SATLiteral \<Rightarrow> bool) \<Rightarrow> u32 \<Rightarrow> (nat \<times> u32 list \<times> u32) list option" where
  "recordFunctions st tr modelSize =
     (let recordIntroduced = False
      in map_option concat (those (map (\<lambda>f.
           let arity = functionArity st f
           in if arity = 0 then Some []
              else if \<not> recordIntroduced \<and> functionIntroduced st f then Some []
              else if del_f st f then Some []
              else map_option concat (those (map (\<lambda>args.
                     map_option
                       (\<lambda>cs. map (\<lambda>c. (f, args, c))
                               (filter (\<lambda>c. tr (getSATLiteral st f (args @ [c])
                                                   True True modelSize)) cs))
                       (elements modelSize))
                   (groundings (replicate arity modelSize) (initialGrounding arity)))))
         [0..<sig_functions st])))"

text \<open>The value recorded for a predicate: the stored one if it is trivial, the solver's otherwise.\<close>

definition predicateValue ::
  "'a fmb_scheme \<Rightarrow> (SATLiteral \<Rightarrow> bool) \<Rightarrow> u32 \<Rightarrow> nat \<Rightarrow> u32 list \<Rightarrow> bool" where
  "predicateValue st tr modelSize f grounding =
     (case trivialPredicates st f of
        Some res \<Rightarrow> res
      | None \<Rightarrow> tr (getSATLiteral st f grounding True False modelSize))"

definition recordPropositions ::
  "'a fmb_scheme \<Rightarrow> (SATLiteral \<Rightarrow> bool) \<Rightarrow> u32 \<Rightarrow> (nat \<times> bool) list" where
  "recordPropositions st tr modelSize =
     (let recordIntroduced = False
      in concat (map (\<lambda>f.
           if predicateArity st f > 0 then []
           else if \<not> recordIntroduced \<and> predicateIntroduced st f then []
           else if del_p st f then []
           else if partiallyDeletedPredicates st f then []
           else [(f, predicateValue st tr modelSize f [])])
         [1..<sig_predicates st]))"

definition recordPredicates ::
  "'a fmb_scheme \<Rightarrow> (SATLiteral \<Rightarrow> bool) \<Rightarrow> u32 \<Rightarrow> (nat \<times> u32 list \<times> bool) list" where
  "recordPredicates st tr modelSize =
     (let recordIntroduced = False
      in concat (map (\<lambda>f.
           let arity = predicateArity st f
           in if arity = 0 then []
              else if \<not> recordIntroduced \<and> predicateIntroduced st f then []
              else if del_p st f then []
              else if partiallyDeletedPredicates st f then []
              else map (\<lambda>grounding. (f, grounding, predicateValue st tr modelSize f grounding))
                       (groundings (replicate arity modelSize) (initialGrounding arity)))
         [1..<sig_predicates st]))"

text \<open>
  The two "Evaluate removed" loops run downwards,
  \<^verbatim>\<open>for(unsigned f=env.signature->functions()-1;f>1;f--)\<close>. With no symbol at all the
  start value wraps to \<open>UINT_MAX\<close> and the first thing the body does is to read the arity
  of that symbol, outside the signature; otherwise the symbols visited are those from
  the last one down to number 2.
\<close>

definition downFrom :: "nat \<Rightarrow> nat list option" where
  "downFrom cnt = (if cnt = 0 then None else Some (rev [2..<cnt]))"

text \<open>
  The body of the loop over eliminated functions, for a symbol of arity at least 1: the
  counter runs through all argument tuples, and each value that can be computed is added
  to the model.
\<close>

definition expandFunction :: "extern \<Rightarrow> u32 \<Rightarrow> nat \<Rightarrow> nat \<Rightarrow> FiniteModel \<Rightarrow> FiniteModel" where
  "expandFunction orc modelSize f arity model =
     foldl (\<lambda>m grounding.
              case evaluateGroundTerm orc m f grounding of
                None \<Rightarrow> m
              | Some res \<Rightarrow>
                  m\<lparr>functionDefinitions := functionDefinitions m @ [(f, grounding, res)]\<rparr>)
           model (groundings (replicate arity modelSize) (initialGrounding arity))"

text \<open>
  The loop over eliminated functions and constants. The grounding array has \<open>arity\<close>
  cells and is set up by \<^verbatim>\<open>for(unsigned i=0;i<arity-1;i++) grounding[i]=1; grounding[arity-1]=0;\<close>,
  which for a constant writes outside the array: \<open>arity-1\<close> is \<open>UINT_MAX\<close>.
\<close>

fun evaluateRemovedFunctions ::
  "extern \<Rightarrow> 'a fmb_scheme \<Rightarrow> u32 \<Rightarrow> nat list \<Rightarrow> FiniteModel \<Rightarrow> FiniteModel option" where
  "evaluateRemovedFunctions orc st modelSize [] model = Some model"
| "evaluateRemovedFunctions orc st modelSize (f # fs) model =
     (let recordIntroduced = False;
          arity = functionArity st f
      in if \<not> recordIntroduced \<and> functionIntroduced st f
         then evaluateRemovedFunctions orc st modelSize fs model
         else if \<not> del_f st f
         then evaluateRemovedFunctions orc st modelSize fs model
         else if arity = 0 then None
         else evaluateRemovedFunctions orc st modelSize fs
                (expandFunction orc modelSize f arity model))"

text \<open>The body of the loop over eliminated predicates, for a symbol of arity at least 1.\<close>

definition expandPredicate ::
  "extern \<Rightarrow> u32 \<Rightarrow> nat \<Rightarrow> nat \<Rightarrow> RemovedDefinition \<Rightarrow> FiniteModel \<Rightarrow> FiniteModel" where
  "expandPredicate orc modelSize f arity d model =
     foldl (\<lambda>m grounding.
              case d of
                PureTrue \<Rightarrow>
                  m\<lparr>predicateDefinitions := predicateDefinitions m @ [(f, grounding, True)]\<rparr>
              | PureFalse \<Rightarrow>
                  m\<lparr>predicateDefinitions := predicateDefinitions m @ [(f, grounding, False)]\<rparr>
              | Equivalence pol \<Rightarrow>
                  (case evaluate orc m f grounding of
                     None \<Rightarrow> m
                   | Some res \<Rightarrow>
                       m\<lparr>predicateDefinitions := predicateDefinitions m
                            @ [(f, grounding, if \<not> pol then \<not> res else res)]\<rparr>)
              | Unusable \<Rightarrow> m)
           model (groundings (replicate arity modelSize) (initialGrounding arity))"

text \<open>
  The loop over eliminated propositions and predicates. Here the array is set up by
  \<^verbatim>\<open>for(unsigned i=0;i<arity;i++) grounding[i]=1; grounding[arity-1]=0;\<close>, and for a
  proposition the last assignment writes outside the array.
\<close>

fun evaluateRemovedPredicates ::
  "extern \<Rightarrow> 'a fmb_scheme \<Rightarrow> u32 \<Rightarrow> nat list \<Rightarrow> FiniteModel \<Rightarrow> FiniteModel option" where
  "evaluateRemovedPredicates orc st modelSize [] model = Some model"
| "evaluateRemovedPredicates orc st modelSize (f # fs) model =
     (let recordIntroduced = False;
          arity = predicateArity st f
      in if \<not> recordIntroduced \<and> predicateIntroduced st f
         then evaluateRemovedPredicates orc st modelSize fs model
         else if \<not> del_p st f \<and> \<not> partiallyDeletedPredicates st f
         then evaluateRemovedPredicates orc st modelSize fs model
         else if removedDefinition orc f = Unusable
         then evaluateRemovedPredicates orc st modelSize fs model
         else if arity = 0 then None
         else evaluateRemovedPredicates orc st modelSize fs
                (expandPredicate orc modelSize f arity (removedDefinition orc f) model))"

text \<open>
  \<open>onModelFound\<close>. The outer \<open>None\<close> is a call that does not return normally (a loop that
  does not end, or an access outside an array); the inner option is the model recorded
  in \<open>env.statistics->model\<close>, \<open>None\<close> when the function returns at once because proof
  output is off.
\<close>

definition onModelFound ::
  "extern \<Rightarrow> 'a fmb_scheme \<Rightarrow> (SATLiteral \<Rightarrow> bool) \<Rightarrow> u32 \<Rightarrow> FiniteModel option option" where
  "onModelFound orc st tr modelSize =
     (if proofOff st then Some None
      else
        case recordConstants st tr modelSize of
          None \<Rightarrow> None
        | Some cdefs \<Rightarrow>
            (case recordFunctions st tr modelSize of
               None \<Rightarrow> None
             | Some fdefs \<Rightarrow>
                 (case downFrom (sig_functions st) of
                    None \<Rightarrow> None
                  | Some fs \<Rightarrow>
                      (case evaluateRemovedFunctions orc st modelSize fs
                              \<lparr>fm_size = modelSize, constantDefinitions = cdefs,
                               functionDefinitions = fdefs,
                               propositionalDefinitions = recordPropositions st tr modelSize,
                               predicateDefinitions = recordPredicates st tr modelSize\<rparr> of
                         None \<Rightarrow> None
                       | Some model \<Rightarrow>
                           (case downFrom (sig_predicates st) of
                              None \<Rightarrow> None
                            | Some ps \<Rightarrow>
                                map_option Some
                                  (evaluateRemovedPredicates orc st modelSize ps model))))))"

text \<open>
  One round of the \<open>while(true)\<close> loop of \<open>runImpl\<close>, at model size \<open>modelSize\<close> in round
  number \<open>r\<close>: either the loop returns (\<open>Inl\<close>) or it goes on with a new state and the
  next size (\<open>Inr\<close>). The clauses are handed to the solver through \<open>_solver\<close>; without an
  allocated solver that call has no defined result.
\<close>

definition roundStep ::
  "extern \<Rightarrow> 'a fmb_scheme \<Rightarrow> u32 \<Rightarrow> nat \<Rightarrow> (Result + 'a fmb_scheme \<times> u32 \<times> nat) option" where
  "roundStep orc st modelSize r =
     (if timeLimitReached orc r then Some (Inl (Result TIME_LIMIT None None))
      else
        case encode st modelSize of
          None \<Rightarrow> None
        | Some clausesToBeAdded \<Rightarrow>
            (case solverVarCount st of
               None \<Rightarrow> None
             | Some vc \<Rightarrow>
                 let satResult = solve orc vc clausesToBeAdded
                 in if satResult = SAT_SATISFIABLE
                    then map_option (\<lambda>m. Inl (Result SATISFIABLE None m))
                           (onModelFound orc st (trueInAssignment orc vc clausesToBeAdded)
                              modelSize)
                    else if modelSize = UINT_MAX then Some (Inl (Result UNKNOWN None None))
                    else if modelSize \<ge> maxModelSize st
                    then Some (Inl (Result REFUTATION (Some (Clause [] 0)) None))
                    else
                      (case reset st (modelSize + 1) of
                         None \<Rightarrow> None
                       | Some (ok, st') \<Rightarrow>
                           if \<not> ok then Some (Inl (Result UNKNOWN None None))
                           else Some (Inr (st', modelSize + 1, Suc r)))))"

lemma roundStep_continues:
  "roundStep orc st n r = Some (Inr (st', n', r')) \<Longrightarrow> n \<noteq> UINT_MAX \<and> n' = n + 1 \<and> r' = Suc r"
  by (auto simp: roundStep_def Let_def split: option.splits if_splits)

lemma unat_UINT_MAX_sub_succ:
  "n \<noteq> UINT_MAX \<Longrightarrow> unat (UINT_MAX - (n + 1)) < unat (UINT_MAX - n)"
  using unat_sub_succ [of n UINT_MAX] by simp

text \<open>The \<open>while(true)\<close> loop: rounds are run until one of them returns.\<close>

function searchLoop :: "extern \<Rightarrow> 'a fmb_scheme \<Rightarrow> u32 \<Rightarrow> nat \<Rightarrow> Result option" where
  "searchLoop orc st modelSize r =
     (case roundStep orc st modelSize r of
        None \<Rightarrow> None
      | Some (Inl res) \<Rightarrow> Some res
      | Some (Inr (st', modelSize', r')) \<Rightarrow> searchLoop orc st' modelSize' r')"
  by pat_completeness auto
termination
  by (relation "measure (\<lambda>(orc, st, n, r). unat (UINT_MAX - n))")
     (auto dest!: roundStep_continues simp: unat_UINT_MAX_sub_succ)

declare searchLoop.simps [simp del]

text \<open>
  The block of \<open>runImpl\<close> before the loop that lowers \<open>_maxModelSize\<close> for EPR problems
  and for signatures without proper functions.
\<close>

definition lowerMaxModelSize :: "'a fmb_scheme \<Rightarrow> 'a fmb_scheme" where
  "lowerMaxModelSize st =
     (if categoryEPR st \<or> maxArity st = 0
      then
        let mx = foldl (\<lambda>mx s.
                          let c = (of_nat (length (sortedConstants st s)) :: u32)
                          in if c > mx then c else mx)
                       1 [0..<sorts st]
        in if mx < maxModelSize st then st\<lparr>maxModelSize := mx\<rparr> else st
      else st)"

text \<open>
  \<open>runImpl\<close>. The first \<open>reset\<close> stands inside \<open>ALWAYS(...)\<close>, which evaluates its argument
  and, with assertions compiled out, ignores the value: the loop is entered whatever
  \<open>reset\<close> returned.
\<close>

definition runImpl :: "extern \<Rightarrow> 'a fmb_scheme \<Rightarrow> Result option" where
  "runImpl orc st0 =
     (if \<not> isComplete st0 then Some (Result UNKNOWN None None)
      else
        let st = lowerMaxModelSize st0;
            modelSize = (if useConstantsAsStart st then constantCount st else startModelSize st)
        in case reset st modelSize of
             None \<Rightarrow> None
           | Some (ok, st') \<Rightarrow> searchLoop orc st' modelSize 0)"

section \<open>Notions for the variable layout\<close>

text \<open>
  The offset of a symbol, the length of its tuples (arguments, and for a function the
  image), the number of variables that \<open>reset\<close> sets aside for it, the symbols that get
  variables (functions and predicates that are not eliminated; predicate 0, equality,
  gets none), and the tuples over the domain \<open>1..n\<close>.
\<close>

definition symbolOffset :: "'a fmb_scheme \<Rightarrow> bool \<Rightarrow> nat \<Rightarrow> u32" where
  "symbolOffset st isFunction f = (if isFunction then f_offsets st f else p_offsets st f)"

definition tupleLength :: "'a fmb_scheme \<Rightarrow> bool \<Rightarrow> nat \<Rightarrow> nat" where
  "tupleLength st isFunction f =
     (if isFunction then functionArity st f + 1 else predicateArity st f)"

definition blockSize :: "'a fmb_scheme \<Rightarrow> bool \<Rightarrow> nat \<Rightarrow> u32 \<Rightarrow> nat" where
  "blockSize st isFunction f n =
     unat n ^ (if isFunction then functionArity st f + 2 else predicateArity st f + 1)"

definition liveSymbol :: "'a fmb_scheme \<Rightarrow> bool \<Rightarrow> nat \<Rightarrow> bool" where
  "liveSymbol st isFunction f =
     (if isFunction then f < sig_functions st \<and> \<not> del_f st f
      else 1 \<le> f \<and> f < sig_predicates st \<and> \<not> del_p st f)"

definition inBounds :: "'a fmb_scheme \<Rightarrow> bool \<Rightarrow> nat \<Rightarrow> u32 \<Rightarrow> u32 list \<Rightarrow> bool" where
  "inBounds st isFunction f n t =
     (length t = tupleLength st isFunction f \<and> list_all (\<lambda>x. 1 \<le> x \<and> x \<le> n) t)"

text \<open>The position of a tuple inside its block: its digits, each less one, in base \<open>n\<close>.\<close>

fun tupleIndex :: "nat \<Rightarrow> u32 list \<Rightarrow> nat" where
  "tupleIndex N [] = 0"
| "tupleIndex N (g # gs) = (unat g - 1) + N * tupleIndex N gs"

section \<open>The statements of the specification\<close>

text \<open>
  The notions in which the specification states the translation of clause instances: a
  two-variable equality literal is trivially true under a grounding when it is positive
  and both variables get the same element, or negative and they get different ones; a
  definition equality and a predicate atom each become one SAT literal.
\<close>

fun triviallyTrue :: "u32 list \<Rightarrow> Literal \<Rightarrow> bool" where
  "triviallyTrue g (TwoVarEquality pol x y) = (pol = (g ! x = g ! y))"
| "triviallyTrue g l = False"

fun literalTranslation :: "'a fmb_scheme \<Rightarrow> u32 \<Rightarrow> u32 list \<Rightarrow> Literal \<Rightarrow> SATLiteral list" where
  "literalTranslation st n g (TwoVarEquality pol x y) = []"
| "literalTranslation st n g (Equality pol f args y) =
     [getSATLiteral st f (map (\<lambda>v. g ! v) args @ [g ! y]) pol True n]"
| "literalTranslation st n g (Predicate pol p args) =
     [getSATLiteral st p (map (\<lambda>v. g ! v) args) pol False n]"

text \<open>
  The canonicity layer as the specification words it: the window is the product of ratio
  and upper bound rounded up, and the clauses are emitted at every size.
\<close>

definition canonicityAsSpecified ::
  "'a fmb_scheme \<Rightarrow> u32 \<Rightarrow> GroundedTerm list \<Rightarrow> u32 \<Rightarrow> SATClause list" where
  "canonicityAsSpecified st n G maxSize =
     (let w = min (nat \<lceil>symmetryRatio st * of_nat (unat maxSize)\<rceil>) (length G)
      in map (\<lambda>i. getSATLiteral st (gt_f (G ! i)) (termTuple st (G ! i) n) False True n
                   # map (\<lambda>j. getSATLiteral st (gt_f (G ! j)) (termTuple st (G ! j) (n - 1))
                                  True True n) [0..<i])
             [1..<w])"

text \<open>
  The total of the layout as the specification words it: one, plus \<open>n^(k+1)\<close> for every
  live function of arity \<open>k\<close>, plus \<open>n^k\<close> for every live predicate of arity \<open>k\<close>.
\<close>

definition totalVarsAsSpecified :: "'a fmb_scheme \<Rightarrow> u32 \<Rightarrow> nat" where
  "totalVarsAsSpecified st n =
     1 + (\<Sum>f\<leftarrow>filter (\<lambda>f. \<not> del_f st f) [0..<sig_functions st]. unat n ^ (functionArity st f + 1))
       + (\<Sum>p\<leftarrow>filter (\<lambda>p. \<not> del_p st p) [1..<sig_predicates st]. unat n ^ predicateArity st p)"

section \<open>Example problems\<close>

text \<open>
  A builder for the empty signature (only the equality predicate, number 0), from which
  the examples below are obtained by setting fields.
\<close>

definition emptyProblem :: fmb where
  "emptyProblem =
     \<lparr>f_offsets = (\<lambda>f. 0), p_offsets = (\<lambda>p. 0), sig_functions = 0, sig_predicates = 1,
      functionArity = (\<lambda>f. 0), predicateArity = (\<lambda>p. 0),
      functionIntroduced = (\<lambda>f. False), predicateIntroduced = (\<lambda>p. False),
      del_f = (\<lambda>f. False), del_p = (\<lambda>p. False),
      partiallyDeletedPredicates = (\<lambda>p. False), trivialPredicates = (\<lambda>p. None),
      sorts = 0, sortedConstants = (\<lambda>s. []), sortedFunctions = (\<lambda>s. []),
      functionBounds = (\<lambda>f i. UINT_MAX), predicateBounds = (\<lambda>p i. UINT_MAX),
      groundClauses = [], clauses = [], clauseBounds = (\<lambda>c i. 0),
      isComplete = True, maxModelSize = UINT_MAX, constantCount = 0, maxArity = 0,
      startModelSize = 1, useConstantsAsStart = False, symmetryRatio = 1,
      widgetOrder = FUNCTION_FIRST, categoryEPR = False, proofOff = False,
      solverVarCount = None, sortedGroundedTerms = (\<lambda>s. [])\<rparr>"

text \<open>One binary predicate and the clause \<open>x = y \<or> \<not> p(x, y)\<close>.\<close>

definition exC4 :: fmb where
  "exC4 = emptyProblem\<lparr>sig_predicates := 2, predicateArity := (\<lambda>p. 2), p_offsets := (\<lambda>p. 1),
            clauseBounds := (\<lambda>c i. 2)\<rparr>"

definition clC4 :: Clause where
  "clC4 = Clause [TwoVarEquality True 0 1, Predicate False 1 [0, 1]] 2"


text \<open>A constant and a unary function in one sort, at size 2.\<close>

definition exC10 :: fmb where
  "exC10 = emptyProblem\<lparr>sig_functions := 2, functionArity := (\<lambda>f. if f = 1 then 1 else 0),
             sorts := 1, sortedConstants := (\<lambda>s. [0]), sortedFunctions := (\<lambda>s. [1]),
             maxArity := 1\<rparr>"




definition stC10 :: fmb where
  "stC10 = snd (the (reset (exC10\<lparr>maxModelSize := 5\<rparr>) 2))"

text \<open>Two constants as grounded terms.\<close>

definition G2 :: "GroundedTerm list" where
  "G2 = [GroundedTerm 0 0, GroundedTerm 1 0]"

definition exC5 :: fmb where
  "exC5 = emptyProblem\<lparr>sig_functions := 2, f_offsets := (\<lambda>f. if f = 0 then 1 else 5)\<rparr>"

text \<open>An effectively propositional problem with four constants in two sorts.\<close>

definition exC7 :: fmb where
  "exC7 = emptyProblem\<lparr>categoryEPR := True, sig_functions := 4, sorts := 2,
            sortedConstants := (\<lambda>s. if s = 0 then [0, 1] else [2, 3]), constantCount := 4\<rparr>"

text \<open>
  Solvers for the examples: one that reports every clause set unsatisfiable, and one
  that reports it satisfiable with the variables 1, 2 and 4 true and every other
  variable false. For the second one every eliminated predicate is kept as the constant
  true and every eliminated function evaluates to the first domain element.
\<close>

definition unsatSolver :: extern where
  "unsatSolver = \<lparr>solve = (\<lambda>vc cls. SAT_UNSATISFIABLE), trueInAssignment = (\<lambda>vc cls l. False),
                  timeLimitReached = (\<lambda>r. False), removedDefinition = (\<lambda>p. Unusable),
                  evaluateGroundTerm = (\<lambda>m f g. None), evaluate = (\<lambda>m f g. None)\<rparr>"

definition satSolver :: extern where
  "satSolver = \<lparr>solve = (\<lambda>vc cls. SAT_SATISFIABLE),
                trueInAssignment = (\<lambda>vc cls l. if var l = 1 \<or> var l = 2 \<or> var l = 4
                                                then polarity l else \<not> polarity l),
                timeLimitReached = (\<lambda>r. False), removedDefinition = (\<lambda>p. PureTrue),
                evaluateGroundTerm = (\<lambda>m f g. Some 1), evaluate = (\<lambda>m f g. Some True)\<rparr>"

text \<open>
  The ground clauses \<open>p\<close> and \<open>\<not> p\<close>, started at size 1; and the same clauses with two
  constants whose sort is bounded by 1 and an eliminated unary function, started at size
  46340, the last size whose variables fit into 32 bits.
\<close>

definition exC8w :: fmb where
  "exC8w = emptyProblem\<lparr>sig_predicates := 2, categoryEPR := True,
             groundClauses := [Clause [Predicate True 1 []] 0, Clause [Predicate False 1 []] 0]\<rparr>"

definition stC8w :: fmb where
  "stC8w = snd (the (reset (lowerMaxModelSize exC8w) 1))"

definition exC8 :: fmb where
  "exC8 = emptyProblem\<lparr>sig_functions := 3, functionArity := (\<lambda>f. if f = 2 then 1 else 0),
            del_f := (\<lambda>f. f = 2), functionBounds := (\<lambda>f i. 1), sig_predicates := 2,
            groundClauses := [Clause [Predicate True 1 []] 0, Clause [Predicate False 1 []] 0],
            maxArity := 1, constantCount := 2, startModelSize := 46340, symmetryRatio := 0,
            sorts := 1, sortedConstants := (\<lambda>s. [0, 1])\<rparr>"

definition stC8 :: fmb where
  "stC8 = snd (the (reset (lowerMaxModelSize exC8) 46340))"



definition exC9p :: fmb where
  "exC9p = emptyProblem\<lparr>sig_predicates := 3, categoryEPR := True,
             groundClauses := [Clause [Predicate True 1 [], Predicate True 2 []] 0]\<rparr>"

text \<open>Two constants, with the search started at size 50000.\<close>

definition exC6 :: fmb where
  "exC6 = emptyProblem\<lparr>sig_functions := 2, functionBounds := (\<lambda>f i. 1), constantCount := 2,
            startModelSize := 50000\<rparr>"

text \<open>Two constants; a unary function with an assignment; a constant whose sort is bounded by 1.\<close>

definition exC2 :: fmb where
  "exC2 = emptyProblem\<lparr>sig_functions := 2\<rparr>"

definition stC2 :: fmb where
  "stC2 = snd (the (reset exC2 2))"

definition exC1w :: fmb where
  "exC1w = emptyProblem\<lparr>sig_functions := 1, functionArity := (\<lambda>f. 1), f_offsets := (\<lambda>f. 1)\<rparr>"

definition asgC1w :: "u32 \<Rightarrow> bool" where
  "asgC1w v = (v = 1 \<or> v = 4)"

definition exC1 :: fmb where
  "exC1 = emptyProblem\<lparr>sig_functions := 1, functionBounds := (\<lambda>f i. 1), sorts := 1,
            sortedConstants := (\<lambda>s. [0]), constantCount := 1\<rparr>"

definition stC1 :: fmb where
  "stC1 = snd (the (reset exC1 2))"

definition asgC1 :: "u32 \<Rightarrow> bool" where
  "asgC1 v = (v = 1 \<or> v = 2)"

section \<open>The counter visits every grounding within the bounds\<close>

lemma ones_colex:
  "length ts = k \<Longrightarrow> \<forall>t\<in>set ts. 1 \<le> t \<Longrightarrow> replicate k 1 = ts \<or> colexLess (replicate k 1) ts"
proof (induction ts arbitrary: k)
  case Nil
  then show ?case by simp
next
  case (Cons t ts)
  then obtain k' where k: "k = Suc k'" and len: "length ts = k'" by (cases k) auto
  from Cons.IH [OF len] Cons.prems(2)
  have "replicate k' 1 = ts \<or> colexLess (replicate k' 1) ts" by simp
  moreover have "1 = t \<or> 1 < t" using Cons.prems(2) by auto
  ultimately show ?case by (auto simp: k)
qed

lemma incr_successor:
  "list_all2 (\<lambda>t m. 1 \<le> t \<and> t \<le> m) ts ms \<Longrightarrow> list_all2 (\<le>) as ms \<Longrightarrow> colexLess as ts \<Longrightarrow>
   \<exists>bs. incr ms as = Some bs \<and> (bs = ts \<or> colexLess bs ts) \<and> list_all2 (\<le>) bs ms"
proof (induction ms as arbitrary: ts rule: incr.induct)
  case (1 m ms a as)
  from 1(2) obtain t ts' where ts: "ts = t # ts'" and t: "1 \<le> t" "t \<le> m"
    and ts': "list_all2 (\<lambda>t m. 1 \<le> t \<and> t \<le> m) ts' ms"
    by (cases ts) auto
  from 1(3) have a: "a \<le> m" and as: "list_all2 (\<le>) as ms" by auto
  from 1(4) have lt: "colexLess as ts' \<or> (as = ts' \<and> a < t)" by (simp add: ts)
  show ?case
  proof (cases "a = m")
    case True
    with lt t have "colexLess as ts'" by auto
    from 1(1) [OF True ts' as this] obtain cs where
      cs: "incr ms as = Some cs" "cs = ts' \<or> colexLess cs ts'" "list_all2 (\<le>) cs ms"
      by blast
    have "1 = t \<or> 1 < t" using t by auto
    moreover have "(1::u32) \<le> m" using t by simp
    ultimately show ?thesis using cs True by (auto simp: ts)
  next
    case False
    then have "a < m" using a by simp
    then have am: "a + 1 \<le> m" by (simp add: inc_le)
    have "a < t \<Longrightarrow> a + 1 = t \<or> a + 1 < t"
      using inc_le [of a t] by auto
    then show ?thesis using False lt am as by (auto simp: ts)
  qed
qed simp_all


lemma groundings_cover_from:
  "list_all2 (\<lambda>t m. 1 \<le> t \<and> t \<le> m) t mins \<Longrightarrow> list_all2 (\<le>) g mins \<Longrightarrow>
   colexLess (rev g) (rev t) \<Longrightarrow> t \<in> set (groundings mins g)"
proof (induction mins g rule: groundings.induct)
  case (1 mins g)
  have len: "length mins = length g" using 1(3) by (simp add: list_all2_lengthD)
  from incr_successor [of "rev t" "rev mins" "rev g"] 1(2,3,4)
  obtain bs where bs: "incr (rev mins) (rev g) = Some bs"
    and nxt: "bs = rev t \<or> colexLess bs (rev t)" and le: "list_all2 (\<le>) bs (rev mins)"
    by (auto simp: list_all2_rev)
  have step: "nextGrounding (length g) mins g = Some (rev bs)"
    by (simp add: nextGrounding_incr [OF len] bs)
  show ?case
  proof (cases "bs = rev t")
    case True
    then have "rev bs = t" by auto
    then show ?thesis by (subst groundings.simps) (simp add: step)
  next
    case False
    with nxt have "colexLess (rev (rev bs)) (rev t)" by simp
    moreover have "list_all2 (\<le>) (rev bs) mins"
      using le list_all2_rev [of "(\<le>)" "rev bs" mins] by simp
    ultimately have "t \<in> set (groundings mins (rev bs))"
      using 1(1) [OF step 1(2)] by blast
    then show ?thesis by (subst groundings.simps) (simp add: step)
  qed
qed

lemma groundings_cover:
  assumes box: "list_all2 (\<lambda>t m. 1 \<le> t \<and> t \<le> m) t mins" and k: "length mins = k" "0 < k"
  shows "t \<in> set (groundings mins (initialGrounding k))"
proof -
  obtain k' where k': "k = Suc k'" using k by (cases k) auto
  have "replicate (Suc k') (1::u32) = replicate k' 1 @ [1]"
    by (simp add: replicate_append_same)
  then have init: "initialGrounding k = replicate k' 1 @ [0]"
    by (simp add: initialGrounding_def k' list_update_append del: replicate_Suc)
  have lt: "length t = k" using box k by (simp add: list_all2_lengthD)
  then obtain t' x where t: "t = t' @ [x]" and lt': "length t' = k'"
    using k' by (cases t rule: rev_cases) auto
  have "\<forall>y\<in>set t. 1 \<le> y"
    using box by (auto simp: list_all2_conv_all_nth in_set_conv_nth)
  then have ones: "\<forall>y\<in>set (rev t'). 1 \<le> y" and x: "1 \<le> x"
    by (simp_all add: t)
  have "replicate k' 1 = rev t' \<or> colexLess (replicate k' 1) (rev t')"
    using ones_colex [of "rev t'" k'] ones lt' by simp
  moreover have "0 < x" using x by (simp add: word_less_nat_alt word_le_nat_alt)
  ultimately have "colexLess (rev (initialGrounding k)) (rev t)"
    unfolding init by (auto simp: t)
  moreover have "list_all2 (\<le>) (initialGrounding k) mins"
  proof -
    have "\<forall>i<k. 1 \<le> mins ! i"
      using box k by (auto simp: list_all2_conv_all_nth intro: order_trans)
    then show ?thesis
      unfolding init using k by (auto simp: list_all2_conv_all_nth k' nth_append)
  qed
  ultimately show ?thesis using box by (blast intro: groundings_cover_from)
qed


section \<open>Properties of the variable addressing\<close>

lemma satVarLoop_sum:
  "satVarLoop n v mult gs = v + mult * (\<Sum>i<length gs. (gs ! i - 1) * n ^ i)"
proof (induction gs arbitrary: v mult)
  case Nil
  show ?case by simp
next
  case (Cons g gs)
  have step: "(\<Sum>i<length (g # gs). ((g # gs) ! i - 1) * n ^ i)
      = (g - 1) + n * (\<Sum>i<length gs. (gs ! i - 1) * n ^ i)"
    by (simp add: sum.lessThan_Suc_shift sum_distrib_left mult.left_commute
          del: sum.lessThan_Suc)
  have "satVarLoop n v mult (g # gs)
      = (v + mult * (g - 1)) + (mult * n) * (\<Sum>i<length gs. (gs ! i - 1) * n ^ i)"
    by (simp only: satVarLoop.simps Cons.IH)
  also have "\<dots> = v + mult * ((g - 1) + n * (\<Sum>i<length gs. (gs ! i - 1) * n ^ i))"
    by (simp add: algebra_simps)
  finally show ?case
    by (simp only: step)
qed

text \<open>
  Claim C3. For every symbol, grounding tuple and size, the variable of the literal
  returned by \<open>getSATLiteral\<close> is the symbol's offset plus the sum of
  \<open>(tuple\<^sub>i - 1) * n ^ i\<close> over the positions of the tuple in order, in the
  32-bit arithmetic of the code; the polarity is the one passed in.
\<close>

theorem getSATLiteral_var:
  "var (getSATLiteral st f grounding pol isFunction n)
     = (if isFunction then f_offsets st f else p_offsets st f)
       + (\<Sum>i<length grounding. (grounding ! i - 1) * n ^ i)
   \<and> polarity (getSATLiteral st f grounding pol isFunction n) = pol"
  by (simp add: getSATLiteral_def satVarLoop_sum)


section \<open>Clause instances\<close>

lemma groundLiterals_acc:
  "groundLiterals st n g ls acc =
     (if list_ex (triviallyTrue g) ls then None
      else Some (acc @ concat (map (literalTranslation st n g) ls)))"
proof (induction ls arbitrary: acc)
  case Nil
  show ?case by simp
next
  case (Cons l ls)
  show ?case by (cases l) (auto simp: Cons.IH Let_def)
qed

lemma literalTranslation_polarity:
  "s \<in> set (literalTranslation st n g l) \<Longrightarrow> polarity s = isPositive l"
  by (cases l) (auto simp: getSATLiteral_def Let_def)

lemma groundLiterals_nil:
  "groundLiterals st n g ls [] =
     (if list_ex (triviallyTrue g) ls then None
      else Some (concat (map (literalTranslation st n g) ls)))"
  by (simp add: groundLiterals_acc)

lemma case_option_if:
  "(case (if b then None else Some x) of None \<Rightarrow> a | Some y \<Rightarrow> f y) = (if b then a else f x)"
  by simp

lemma addSATClause_remdups: "addSATClause cl = [remdups cl]"
  by (simp add: addSATClause_def removeDuplicateLiterals_def)

text \<open>
  Claim C4. Under a grounding \<open>g\<close> the literal loop of \<open>addNewInstances\<close> yields no
  clause at all when some two-variable equality literal of the clause is trivially true
  under \<open>g\<close>; otherwise it yields the translations of the definition equalities and
  predicate atoms in order, the trivially false two-variable equalities being dropped,
  and every translated literal has the polarity of its source literal. The clauses
  that \<open>addNewInstances\<close> hands on for a clause are exactly these, for the groundings of
  the counter.
\<close>

theorem addNewInstances_literals:
  "groundLiterals st n g ls [] =
     (if list_ex (triviallyTrue g) ls then None
      else Some (concat (map (literalTranslation st n g) ls)))
   \<and> (\<forall>l\<in>set ls. \<forall>s\<in>set (literalTranslation st n g l). polarity s = isPositive l)
   \<and> instancesOf st n c =
       concat (map (\<lambda>g. if list_ex (triviallyTrue g) (literals c) then []
                         else addSATClause (concat (map (literalTranslation st n g) (literals c))))
                   (groundings (map (\<lambda>i. min (clauseBounds st c i) n) [0..<varCnt c])
                               (initialGrounding (varCnt c))))"
  by (simp add: groundLiterals_nil case_option_if literalTranslation_polarity
                instancesOf_def Let_def)

theorem addNewInstances_literals_witness:
  "groundLiterals exC4 2 [1, 1] (literals clC4) [] = None
   \<and> groundLiterals exC4 2 [1, 2] (literals clC4) [] = Some [SATLiteral 3 False]
   \<and> instancesOf exC4 2 clC4 = [[SATLiteral 3 False], [SATLiteral 2 False]]"
proof -
  have g: "groundings (map (\<lambda>i. min (clauseBounds exC4 clC4 i) 2) [0..<varCnt clC4])
             (initialGrounding (varCnt clC4)) = [[1, 1], [1, 2], [2, 1], [2, 2]]"
    by code_simp
  have a: "addSATClause [SATLiteral 3 False] = [[SATLiteral 3 False]]"
          "addSATClause [SATLiteral 2 False] = [[SATLiteral 2 False]]"
    by (simp_all add: addSATClause_remdups)
  show ?thesis
    using addNewInstances_literals [of exC4 2 "[1, 1]" "literals clC4" clC4]
          addNewInstances_literals [of exC4 2 "[1, 2]" "literals clC4" clC4]
    by (simp add: g a) (simp add: exC4_def clC4_def emptyProblem_def getSATLiteral_def a)
qed

section \<open>Canonicity\<close>

lemma foldl_snoc_map: "foldl (\<lambda>acc x. acc @ [f x]) a xs = a @ map f xs"
  by (induction xs arbitrary: a) simp_all

lemma canonicityCalls_closed:
  "canonicityCalls st n G maxSize =
     (if n \<le> 1 then []
      else map (\<lambda>i. (gt_f (G ! i), termTuple st (G ! i) n, False)
                     # map (\<lambda>j. (gt_f (G ! j), termTuple st (G ! j) (n - 1), True)) [0..<i])
               [1..<canonicityWindow st G maxSize])"
  by (simp add: canonicityCalls_def Let_def foldl_snoc_map)


lemma canonicityWindow_min:
  "canonicityWindow st G maxSize
     = min (unat (floatToUnsigned (symmetryProduct st maxSize))) (length G)"
  by (simp add: canonicityWindow_def Let_def min_def)

lemma toFloat_zero: "toFloat 0 = 0"
  by (simp add: toFloat_def)

lemma symmetryProduct_zero: "symmetryRatio st = 0 \<Longrightarrow> symmetryProduct st maxSize = 0"
  by (simp add: symmetryProduct_def toFloat_zero)

lemma floatToUnsigned_floor:
  assumes "0 \<le> p" and "p < 2 ^ 32"
  shows "unat (floatToUnsigned p) = nat \<lfloor>p\<rfloor>"
proof -
  have lo: "0 \<le> \<lfloor>p\<rfloor>" using assms(1) by simp
  have "\<lfloor>p\<rfloor> < 2 ^ 32" using assms(2) by (simp add: floor_less_iff)
  then have hi: "nat \<lfloor>p\<rfloor> < 2 ^ 32" using lo by (simp add: nat_less_iff)
  have "floatToUnsigned p = (of_nat (nat \<lfloor>p\<rfloor>) :: u32)"
    using assms(1) lo by (simp add: floatToUnsigned_def)
  then show ?thesis using hi by (simp add: of_nat_inverse)
qed

text \<open>
  Claim C5, as amended. For a size above 1 the canonicity layer hands on exactly the clauses
  \<open>\<not>[G[i]=n] \<or> \<Or>\<^sub>j\<^sub><\<^sub>i [G[j]=n-1]\<close> for \<open>i\<close> from 1 below \<open>w\<close>, each through \<open>addSATClause\<close>, where \<open>w\<close>
  is the smaller of the number of grounded terms and the single-precision product of ratio
  and upper bound converted to \<open>unsigned\<close>, which for a product below \<open>2^32\<close> is its integer
  part; for a size of at most 1 it emits nothing; and with ratio 0 it emits nothing at any
  size.
\<close>

theorem canonicity_clauses:
  "addNewSymmetryCanonicityAxioms st n G maxSize =
     (if n \<le> 1 then []
      else concat (map (\<lambda>i. addSATClause
                      (getSATLiteral st (gt_f (G ! i)) (termTuple st (G ! i) n) False True n
                       # map (\<lambda>j. getSATLiteral st (gt_f (G ! j)) (termTuple st (G ! j) (n - 1))
                                      True True n) [0..<i]))
               [1..<min (unat (floatToUnsigned (symmetryProduct st maxSize))) (length G)]))
   \<and> (0 \<le> symmetryProduct st maxSize \<and> symmetryProduct st maxSize < 2 ^ 32
        \<longrightarrow> canonicityWindow st G maxSize = min (nat \<lfloor>symmetryProduct st maxSize\<rfloor>) (length G))
   \<and> (symmetryRatio st = 0 \<longrightarrow> addNewSymmetryCanonicityAxioms st n G maxSize = [])"
proof -
  have "0 \<le> symmetryProduct st maxSize \<and> symmetryProduct st maxSize < 2 ^ 32
          \<longrightarrow> canonicityWindow st G maxSize = min (nat \<lfloor>symmetryProduct st maxSize\<rfloor>) (length G)"
    by (simp add: canonicityWindow_min floatToUnsigned_floor)
  moreover have "symmetryRatio st = 0 \<longrightarrow> addNewSymmetryCanonicityAxioms st n G maxSize = []"
    by (simp add: addNewSymmetryCanonicityAxioms_def canonicityCalls_closed
                  canonicityWindow_min symmetryProduct_zero floatToUnsigned_def)
  moreover have "addNewSymmetryCanonicityAxioms st n G maxSize =
     (if n \<le> 1 then []
      else concat (map (\<lambda>i. addSATClause
                      (getSATLiteral st (gt_f (G ! i)) (termTuple st (G ! i) n) False True n
                       # map (\<lambda>j. getSATLiteral st (gt_f (G ! j)) (termTuple st (G ! j) (n - 1))
                                      True True n) [0..<i]))
               [1..<min (unat (floatToUnsigned (symmetryProduct st maxSize))) (length G)]))"
    by (simp add: addNewSymmetryCanonicityAxioms_def canonicityCalls_closed
                  canonicityWindow_min comp_def)
  ultimately show ?thesis by blast
qed

text \<open>
  With ratio 0 nothing is emitted; with ratio 1 and upper bound 2 one clause at size 2;
  and with ratio 0.7 and upper bound 10 the product is \<open>7.0f\<close> and the window is 7, where
  the exact product of \<open>0.7f\<close> and 10 lies below 7.
\<close>

theorem canonicity_clauses_witness:
  "symmetryRatio (exC5\<lparr>symmetryRatio := 0\<rparr>) = 0
   \<and> addNewSymmetryCanonicityAxioms (exC5\<lparr>symmetryRatio := 0\<rparr>) 2 G2 2 = []
   \<and> addNewSymmetryCanonicityAxioms exC5 2 G2 2 = [[SATLiteral 6 False, SATLiteral 1 True]]
   \<and> 0 \<le> symmetryProduct (exC5\<lparr>symmetryRatio := 7 / 10\<rparr>) 10
   \<and> symmetryProduct (exC5\<lparr>symmetryRatio := 7 / 10\<rparr>) 10 < 2 ^ 32
   \<and> toFloat (7 / 10) * 10 < 7
   \<and> canonicityWindow (exC5\<lparr>symmetryRatio := 7 / 10\<rparr>) (replicate 9 (GroundedTerm 0 0)) 10 = 7"
proof -
  have a: "addNewSymmetryCanonicityAxioms exC5 2 G2 2 = [[SATLiteral 6 False, SATLiteral 1 True]]"
    by code_simp
  have b: "symmetryRatio (exC5\<lparr>symmetryRatio := 0\<rparr>) = 0"
    by simp
  have c: "symmetryProduct (exC5\<lparr>symmetryRatio := 7 / 10\<rparr>) 10 = 7"
    by code_simp
  have d: "toFloat (7 / 10) * 10 < 7"
    by code_simp
  have e: "addNewSymmetryCanonicityAxioms (exC5\<lparr>symmetryRatio := 0\<rparr>) 2 G2 2 = []"
    using canonicity_clauses [of "exC5\<lparr>symmetryRatio := 0\<rparr>" 2 G2 2, THEN conjunct2, THEN conjunct2] b
    by blast
  have f: "canonicityWindow (exC5\<lparr>symmetryRatio := 7 / 10\<rparr>) (replicate 9 (GroundedTerm 0 0)) 10 = 7"
    using canonicity_clauses [of "exC5\<lparr>symmetryRatio := 7 / 10\<rparr>" 2
                                 "replicate 9 (GroundedTerm 0 0)" 10, THEN conjunct2, THEN conjunct1]
    by (simp add: c)
  show ?thesis
    using a b d e f by (simp add: c)
qed

text \<open>
  The claim as stated fails: at size 1 with ratio 1, upper bound 2 and two grounded terms
  the code emits nothing where the claim has one clause; and at size 2 with ratio 1/2 and
  upper bound 3 the code's window is 1 (no clause) where rounding up gives 2 (one clause).
\<close>

theorem canonicity_clauses_counterexample:
  "addNewSymmetryCanonicityAxioms exC5 1 G2 2 = []
   \<and> canonicityAsSpecified exC5 1 G2 2 = [[SATLiteral 5 False, SATLiteral 0 True]]
   \<and> addNewSymmetryCanonicityAxioms (exC5\<lparr>symmetryRatio := 1 / 2\<rparr>) 2 G2 3 = []
   \<and> canonicityAsSpecified (exC5\<lparr>symmetryRatio := 1 / 2\<rparr>) 2 G2 3
       = [[SATLiteral 6 False, SATLiteral 1 True]]"
  by code_simp

text \<open>
  Values of the rounding: \<open>0.7f\<close>; two ties, which go to the even significand;
  \<open>UINT_MAX\<close> as a \<open>float\<close>; and a negative third.
\<close>

lemma toFloat_examples:
  "toFloat (7 / 10) = 11744051 / 16777216
   \<and> toFloat 16777217 = 16777216 \<and> toFloat 16777219 = 16777220
   \<and> toFloat 4294967295 = 4294967296
   \<and> toFloat (- (1 / 3)) = - (11184811 / 33554432)"
  by code_simp

text \<open>
  With ratio 1 and the default upper bound \<open>UINT_MAX\<close> the bound is rounded to \<open>2^32\<close> when
  it is converted to \<open>float\<close>, the product is \<open>2^32\<close>, and the window is 0.
\<close>

lemma canonicityWindow_default_bound:
  "symmetryProduct emptyProblem UINT_MAX = 2 ^ 32 \<and> canonicityWindow emptyProblem G2 UINT_MAX = 0"
  by code_simp

lemma elements_ge1: "elements n = Some ms \<Longrightarrow> m \<in> set ms \<Longrightarrow> 1 \<le> m"
proof -
  assume "elements n = Some ms" and "m \<in> set ms"
  then have "m \<in> of_nat ` {1..<Suc (unat n)}"
    by (auto simp: elements_def split: if_splits simp del: upt_Suc)
  then obtain k where k: "m = of_nat k" "1 \<le> k" "k \<le> unat n"
    by auto
  then have "unat m = k" by (simp add: le_unat_uoi)
  then show ?thesis using k by (simp add: word_le_nat_alt)
qed

lemma diagonal_ge1: "0 < n \<Longrightarrow> (1::u32) \<le> 1 + x mod n"
proof -
  assume "0 < n"
  then have "x mod n < n" by (rule word_mod_less_divisor)
  then have "x mod n \<noteq> - 1"
    by (metis word_order.extremum_strict)
  then have "1 + x mod n \<noteq> 0"
    by (metis add.commute add_eq_0_iff)
  then have "0 < unat (1 + x mod n)"
    by (simp add: unat_gt_0)
  then show ?thesis
    by (simp add: word_le_nat_alt)
qed

lemma widget_grounding: "gt \<in> set (widget st n fn m) \<Longrightarrow> gt_grounding gt = m"
  by (auto simp: widget_def split: if_splits)

lemma groundedTermsOf_grounding:
  assumes G: "groundedTermsOf st n s = Some G" and n: "0 < n"
    and wf: "\<forall>c\<in>set (sortedConstants st s). functionArity st c = 0"
    and gt: "gt \<in> set G"
  shows "functionArity st (gt_f gt) = 0 \<or> 1 \<le> gt_grounding gt"
proof (cases "widgetOrder st")
  case FUNCTION_FIRST
  then show ?thesis
    using G wf gt
    by (auto simp: groundedTermsOf_def Let_def split: if_splits
             dest!: widget_grounding dest: elements_ge1)
next
  case ARGUMENT_FIRST
  then show ?thesis
    using G wf gt
    by (auto simp: groundedTermsOf_def Let_def dest!: widget_grounding dest: elements_ge1)
next
  case DIAGONAL
  then show ?thesis
    using G wf gt diagonal_ge1 [OF n]
    by (auto simp: groundedTermsOf_def Let_def dest!: widget_grounding)
qed

lemma those_map_nth:
  "those (map f xs) = Some ys \<Longrightarrow> i < length xs \<Longrightarrow> f (xs ! i) = Some (ys ! i)"
proof (induction xs arbitrary: ys i)
  case Nil
  then show ?case by simp
next
  case (Cons x xs)
  then show ?case
    by (cases i) (auto split: option.splits)
qed

lemma reset_groundedTerms:
  "reset st n = Some (True, st') \<Longrightarrow> s < sorts st \<Longrightarrow>
   groundedTermsOf st n s = Some (sortedGroundedTerms st' s) \<and> functionArity st' = functionArity st"
  by (auto simp: reset_def split: prod.splits if_splits option.splits dest: those_map_nth)


lemma termTuple_entries:
  "x \<in> set (termTuple st gt img) \<Longrightarrow>
   x = img \<or> (functionArity st (gt_f gt) \<noteq> 0 \<and> x = gt_grounding gt)"
  by (auto simp: termTuple_def)

lemma canonicityWindow_le: "canonicityWindow st G maxSize \<le> length G"
  by (simp add: canonicityWindow_min)

text \<open>
  Claim C10. At a size of at most 1 the canonicity encoder makes no call of
  \<open>getSATLiteral\<close> and emits no clause. On the grounded terms that \<open>reset\<close> builds for a
  sort whose constants are nullary, every entry of every grounding array that the
  canonicity encoder passes to \<open>getSATLiteral\<close> is at least 1, so \<open>grounding[i]-1\<close> does
  not wrap around.
\<close>

theorem canonicity_groundings_positive:
  assumes r: "reset st n = Some (True, st')" and s: "s < sorts st"
    and wf: "\<forall>c\<in>set (sortedConstants st s). functionArity st c = 0"
  shows "(\<forall>G. n \<le> 1 \<longrightarrow> canonicityCalls st' n G maxSize = []
                      \<and> addNewSymmetryCanonicityAxioms st' n G maxSize = [])
       \<and> (\<forall>calls\<in>set (canonicityCalls st' n (sortedGroundedTerms st' s) maxSize).
            \<forall>(f, grounding, pol)\<in>set calls. \<forall>x\<in>set grounding. 1 \<le> x)"
proof (cases "n \<le> 1")
  case True
  then show ?thesis
    by (simp add: canonicityCalls_def addNewSymmetryCanonicityAxioms_def)
next
  case False
  let ?G = "sortedGroundedTerms st' s"
  from False have n1: "1 < n" by simp
  then have n0: "0 < n" and img: "1 \<le> n" "1 \<le> n - 1"
    by (simp_all add: word_less_nat_alt word_le_nat_alt unat_sub)
  from reset_groundedTerms [OF r s]
  have G: "groundedTermsOf st n s = Some ?G" and ar: "functionArity st' = functionArity st"
    by simp_all
  have P: "functionArity st' (gt_f (?G ! i)) = 0 \<or> 1 \<le> gt_grounding (?G ! i)"
    if "i < canonicityWindow st' ?G maxSize" for i
  proof -
    have "i < length ?G" using that canonicityWindow_le [of st' ?G maxSize] by simp
    then have "?G ! i \<in> set ?G" by simp
    from groundedTermsOf_grounding [OF G n0 wf this] show ?thesis by (simp add: ar)
  qed
  have H1: "1 \<le> x"
    if "i < canonicityWindow st' ?G maxSize" "x \<in> set (termTuple st' (?G ! i) img)" "1 \<le> img"
    for i x img
    using termTuple_entries [OF that(2)] P [OF that(1)] that(3) by auto
  have H2: "1 \<le> x"
    if "j < i" "i < canonicityWindow st' ?G maxSize"
       "x \<in> set (termTuple st' (?G ! j) img)" "1 \<le> img"
    for i j x img
    using H1 [of j x img] that by simp
  show ?thesis
    using False img H1 H2 by (auto simp: canonicityCalls_closed)
qed

lemma reset_exC10: "reset (exC10\<lparr>maxModelSize := 5\<rparr>) 2 = Some (True, stC10)"
proof -
  have "reset (exC10\<lparr>maxModelSize := 5\<rparr>) 2 \<noteq> None"
       "fst (the (reset (exC10\<lparr>maxModelSize := 5\<rparr>) 2))"
    by code_simp+
  then show ?thesis by (auto simp: stC10_def)
qed

theorem canonicity_groundings_positive_witness:
  "reset (exC10\<lparr>maxModelSize := 5\<rparr>) 2 = Some (True, stC10)
   \<and> canonicityCalls stC10 2 (sortedGroundedTerms stC10 0) 5
       = [[(1, [1, 2], False), (0, [1], True)],
          [(1, [2, 2], False), (0, [1], True), (1, [1, 1], True)]]
   \<and> list_all (list_all (\<lambda>(f, grounding, pol). list_all ((\<le>) 1) grounding))
         (canonicityCalls stC10 2 (sortedGroundedTerms stC10 0) 5)"
proof -
  have s: "0 < sorts (exC10\<lparr>maxModelSize := 5\<rparr>)"
    and wf: "\<forall>c\<in>set (sortedConstants (exC10\<lparr>maxModelSize := 5\<rparr>) 0).
               functionArity (exC10\<lparr>maxModelSize := 5\<rparr>) c = 0"
    by (simp_all add: exC10_def emptyProblem_def)
  have c: "canonicityCalls stC10 2 (sortedGroundedTerms stC10 0) 5
       = [[(1, [1, 2], False), (0, [1], True)],
          [(1, [2, 2], False), (0, [1], True), (1, [1, 1], True)]]"
    by code_simp
  show ?thesis
    using canonicity_groundings_positive [OF reset_exC10 s wf, of 5] reset_exC10 c
    by (simp add: list_all_iff)
qed

section \<open>The upper bound on the model size\<close>

lemma foldl_max:
  "foldl (\<lambda>mx s. if f s > mx then f s else mx) (a::u32) xs = Max (insert a (f ` set xs))"
proof (induction xs arbitrary: a)
  case Nil
  show ?case by simp
next
  case (Cons x xs)
  have m: "(if a < f x then f x else a) = max a (f x)"
    by (simp add: max_def less_le_not_le)
  have "foldl (\<lambda>mx s. if f s > mx then f s else mx) a (x # xs)
      = foldl (\<lambda>mx s. if f s > mx then f s else mx) (max a (f x)) xs"
    by (simp only: foldl_Cons m)
  also have "\<dots> = Max (insert (max a (f x)) (f ` set xs))"
    by (rule Cons.IH)
  also have "\<dots> = Max (insert a (insert (f x) (f ` set xs)))"
    by (cases "set xs = {}") (simp_all add: max.assoc)
  finally show ?case by simp
qed

text \<open>
  Claim C7, as amended. When the problem is EPR or no function symbol has arity above 0,
  \<open>runImpl\<close> lowers \<open>_maxModelSize\<close>, before the loop, to the largest number of constants of
  a single sort, and to 1 when every sort has fewer, if that number is below the current
  value; otherwise it leaves the state as it is.
\<close>

theorem lowerMaxModelSize_value:
  "(categoryEPR st \<or> maxArity st = 0 \<longrightarrow>
      maxModelSize (lowerMaxModelSize st)
        = min (maxModelSize st)
              (Max (insert 1 ((\<lambda>s. of_nat (length (sortedConstants st s))) ` {0..<sorts st}))))
   \<and> (\<not> (categoryEPR st \<or> maxArity st = 0) \<longrightarrow> lowerMaxModelSize st = st)"
proof (cases "categoryEPR st \<or> maxArity st = 0")
  case epr: True
  define mx where
    "mx = Max (insert 1 ((\<lambda>s. of_nat (length (sortedConstants st s)) :: u32) ` {0..<sorts st}))"
  have fold: "foldl (\<lambda>mx s. if of_nat (length (sortedConstants st s)) > mx
                          then of_nat (length (sortedConstants st s)) else mx)
                  (1::u32) [0..<sorts st] = mx"
    by (simp add: foldl_max mx_def)
  have "maxModelSize (lowerMaxModelSize st) = (if mx < maxModelSize st then mx else maxModelSize st)"
    using epr by (simp add: lowerMaxModelSize_def Let_def fold)
  also have "\<dots> = min (maxModelSize st) mx"
    by (auto simp: min_def)
  finally show ?thesis using epr by (simp add: mx_def)
next
  case False
  then show ?thesis by (simp add: lowerMaxModelSize_def)
qed

theorem lowerMaxModelSize_value_witness:
  "categoryEPR exC7
   \<and> maxModelSize (lowerMaxModelSize exC7) = min UINT_MAX (max 1 (max 2 2))
   \<and> \<not> (categoryEPR (emptyProblem\<lparr>maxArity := 1\<rparr>) \<or> maxArity (emptyProblem\<lparr>maxArity := 1\<rparr>) = 0)
   \<and> lowerMaxModelSize (emptyProblem\<lparr>maxArity := 1\<rparr>) = emptyProblem\<lparr>maxArity := 1\<rparr>"
proof -
  have "{0..<sorts exC7} = {0, 1}"
    by (auto simp: exC7_def emptyProblem_def)
  then have "Max (insert 1 ((\<lambda>s. of_nat (length (sortedConstants exC7 s)) :: u32) ` {0..<sorts exC7}))
           = max 1 (max 2 2)"
    by (simp add: exC7_def emptyProblem_def)
  moreover have "categoryEPR exC7" "maxModelSize exC7 = UINT_MAX"
    by (simp_all add: exC7_def emptyProblem_def)
  moreover have "\<not> (categoryEPR (emptyProblem\<lparr>maxArity := 1\<rparr>)
                   \<or> maxArity (emptyProblem\<lparr>maxArity := 1\<rparr>) = 0)"
    by (simp add: emptyProblem_def)
  ultimately show ?thesis
    using lowerMaxModelSize_value [of exC7]
          lowerMaxModelSize_value [of "emptyProblem\<lparr>maxArity := 1\<rparr>"]
    by simp
qed

text \<open>
  The claim as stated fails: with the constants 0 and 1 in one sort and 2 and 3 in
  another, the count of all constants is 4, below the current bound, and the bound
  is lowered to 2.
\<close>

theorem lowerMaxModelSize_counterexample:
  "categoryEPR exC7 \<and> maxModelSize exC7 = UINT_MAX \<and> constantCount exC7 = 4
   \<and> length (concat (map (sortedConstants exC7) [0..<sorts exC7])) = 4
   \<and> maxModelSize (lowerMaxModelSize exC7) = 2"
  by code_simp

section \<open>The rounds of the search loop\<close>

text \<open>
  Claim C8, as amended. In a round whose SAT result is UNSATISFIABLE: at size \<open>UINT_MAX\<close>
  the loop returns UNKNOWN; otherwise, if the size has reached \<open>_maxModelSize\<close>, it returns
  REFUTATION with a dummy empty clause; otherwise it increments the size by exactly one
  and calls \<open>reset\<close>, returning UNKNOWN if \<open>reset\<close> fails and going on with the next round
  at the new size if it succeeds.
\<close>

theorem unsat_round:
  assumes "\<not> timeLimitReached orc r" and "encode st n = Some cls"
    and "solverVarCount st = Some vc" and "solve orc vc cls = SAT_UNSATISFIABLE"
  shows "searchLoop orc st n r =
     (if n = UINT_MAX then Some (Result UNKNOWN None None)
      else if maxModelSize st \<le> n then Some (Result REFUTATION (Some (Clause [] 0)) None)
      else case reset st (n + 1) of
             None \<Rightarrow> None
           | Some (ok, st') \<Rightarrow>
               if ok then searchLoop orc st' (n + 1) (Suc r)
               else Some (Result UNKNOWN None None))"
  using assms
  by (subst searchLoop.simps) (simp add: roundStep_def split: option.splits)

theorem unsat_round_witness:
  "\<not> timeLimitReached unsatSolver 0
   \<and> encode stC8w 1 = Some [[SATLiteral 1 True], [SATLiteral 1 False]]
   \<and> solverVarCount stC8w = Some 3
   \<and> solve unsatSolver 3 [[SATLiteral 1 True], [SATLiteral 1 False]] = SAT_UNSATISFIABLE
   \<and> maxModelSize stC8w = 1
   \<and> searchLoop unsatSolver stC8w 1 0 = Some (Result REFUTATION (Some (Clause [] 0)) None)"
proof -
  have t: "\<not> timeLimitReached unsatSolver 0"
    and e: "encode stC8w 1 = Some [[SATLiteral 1 True], [SATLiteral 1 False]]"
    and v: "solverVarCount stC8w = Some 3"
    and u: "solve unsatSolver 3 [[SATLiteral 1 True], [SATLiteral 1 False]] = SAT_UNSATISFIABLE"
    and m: "maxModelSize stC8w = 1"
    by code_simp+
  have "(1::u32) \<noteq> UINT_MAX" by (simp add: UINT_MAX_def)
  then show ?thesis
    using unsat_round [OF t e v u] t e v u m by simp
qed

text \<open>
  The claim as stated fails: at size 46340 the round below is UNSATISFIABLE and the size
  is under \<open>_maxModelSize\<close>, yet the loop neither refutes nor goes on: \<open>reset\<close> fails at size
  46341 and the search ends with UNKNOWN.
\<close>

theorem unsat_round_counterexample:
  "reset (lowerMaxModelSize exC8) 46340 = Some (True, stC8)
   \<and> encode stC8 46340
       = Some [[SATLiteral 4294791201 True], [SATLiteral 4294791201 False],
               [SATLiteral 1 True], [SATLiteral 2147395601 True]]
   \<and> solverVarCount stC8 = Some 4294837542
   \<and> solve unsatSolver 4294837542
        [[SATLiteral 4294791201 True], [SATLiteral 4294791201 False],
         [SATLiteral 1 True], [SATLiteral 2147395601 True]] = SAT_UNSATISFIABLE
   \<and> 46340 < maxModelSize stC8
   \<and> fst (the (reset stC8 (46340 + 1))) = False
   \<and> searchLoop unsatSolver stC8 46340 0 = Some (Result UNKNOWN None None)
   \<and> runImpl unsatSolver exC8 = Some (Result UNKNOWN None None)"
proof -
  have "reset (lowerMaxModelSize exC8) 46340 \<noteq> None"
       "fst (the (reset (lowerMaxModelSize exC8) 46340))"
    by code_simp+
  then have "reset (lowerMaxModelSize exC8) 46340 = Some (True, stC8)"
    by (auto simp: stC8_def)
  moreover have "encode stC8 46340
       = Some [[SATLiteral 4294791201 True], [SATLiteral 4294791201 False],
               [SATLiteral 1 True], [SATLiteral 2147395601 True]]"
    by code_simp
  moreover have "solverVarCount stC8 = Some 4294837542"
    by code_simp
  moreover have "solve unsatSolver 4294837542
        [[SATLiteral 4294791201 True], [SATLiteral 4294791201 False],
         [SATLiteral 1 True], [SATLiteral 2147395601 True]] = SAT_UNSATISFIABLE"
    by (simp add: unsatSolver_def)
  moreover have "46340 < maxModelSize stC8"
    by code_simp
  moreover have "fst (the (reset stC8 (46340 + 1))) = False"
    by code_simp
  moreover have "searchLoop unsatSolver stC8 46340 0 = Some (Result UNKNOWN None None)"
    by code_simp
  moreover have "runImpl unsatSolver exC8 = Some (Result UNKNOWN None None)"
    by code_simp
  ultimately show ?thesis by simp
qed











text \<open>
  Without any function symbol the first of the two loops over eliminated symbols starts
  at \<open>UINT_MAX\<close> and reads outside the signature, so with proof output on the call does
  not return normally, whatever the assignment.
\<close>

lemma onModelFound_no_functions:
  "\<not> proofOff st \<Longrightarrow> sig_functions st = 0 \<Longrightarrow> onModelFound orc st tr n = None"
  by (simp add: onModelFound_def downFrom_def split: option.splits)




text \<open>
  Over a signature without function symbols and with proof output on, the same kind of
  round does not return: the round is satisfiable, and \<open>onModelFound\<close> reads outside the
  signature.
\<close>

lemma onModelFound_no_functions_example:
  "encode (snd (the (reset (lowerMaxModelSize exC9p) 1))) 1
     = Some [[SATLiteral 1 True, SATLiteral 2 True]]
   \<and> sig_functions exC9p = 0 \<and> \<not> proofOff exC9p
   \<and> runImpl satSolver exC9p = None"
  by code_simp

text \<open>
  Claim C6. With two constants and start size 50000 the first \<open>reset\<close> finds that the
  variables do not fit and returns false. \<open>runImpl\<close> does not return UNKNOWN there: the
  value of \<open>reset\<close> is dropped, the loop is entered without a solver, and the run has no
  defined result. (In later rounds the same failure of \<open>reset\<close> does end the search with
  UNKNOWN.)
\<close>

theorem first_reset_overflow:
  "isComplete exC6
   \<and> fst (the (reset (lowerMaxModelSize exC6) 50000)) = False
   \<and> runImpl unsatSolver exC6 = None"
  by code_simp

section \<open>Functionality and totality\<close>

lemma images_set:
  "set (map (\<lambda>j. of_nat j + 1) [0..<unat (m::u32)]) = {e. 1 \<le> e \<and> e \<le> m}"
proof (intro set_eqI iffI)
  fix e :: u32
  assume "e \<in> set (map (\<lambda>j. of_nat j + 1) [0..<unat m])"
  then obtain j where j: "j < unat m" and e: "e = of_nat j + 1" by auto
  have "unat (of_nat (Suc j) :: u32) = Suc j"
    using j by (intro le_unat_uoi [of _ m]) simp
  then have "unat e = j + 1" by (simp add: e add.commute)
  then show "e \<in> {e. 1 \<le> e \<and> e \<le> m}"
    using j by (simp add: word_le_nat_alt)
next
  fix e :: u32
  assume "e \<in> {e. 1 \<le> e \<and> e \<le> m}"
  then have e: "1 \<le> unat e" "unat e \<le> unat m" by (simp_all add: word_le_nat_alt)
  then have "unat e - 1 < unat m" by simp
  moreover have "of_nat (unat e - 1) + 1 = e"
  proof -
    have "of_nat (unat e - 1) + (1::u32) = of_nat (Suc (unat e - 1))" by simp
    also have "\<dots> = of_nat (unat e)" using e by simp
    finally show ?thesis by simp
  qed
  ultimately show "e \<in> set (map (\<lambda>j. of_nat j + 1) [0..<unat m])"
    by (auto simp: image_iff intro!: bexI [of _ "unat e - 1"])
qed

lemma concat_map_memI: "x \<in> set xs \<Longrightarrow> y \<in> set (F x) \<Longrightarrow> y \<in> set (concat (map F xs))"
  by auto

lemma functional_clause_mem:
  assumes len: "length ds = functionArity st f"
    and box: "\<forall>i<length ds. 1 \<le> ds ! i \<and> ds ! i \<le> min (functionBounds st f (i + 1)) n"
    and ab: "1 \<le> a" "a < b" "b \<le> min (functionBounds st f 0) n"
  shows "remdups [getSATLiteral st f (ds @ [a]) False True n,
                  getSATLiteral st f (ds @ [b]) False True n]
           \<in> set (functionalDefsOf st n f)"
proof -
  let ?ar = "functionArity st f"
  let ?m0 = "min (functionBounds st f 0) n"
  define rest where "rest = map (\<lambda>i. min (functionBounds st f (i - 1)) n) [2..<?ar + 2]"
  let ?t = "a # b # ds"
  have a: "a \<le> ?m0" "1 \<le> b" using ab by auto
  have nth: "rest ! i = min (functionBounds st f (i + 1)) n" if "i < ?ar" for i
    using that by (simp add: rest_def nth_map_upt del: upt_Suc)
  have lrest: "length rest = ?ar"
    by (simp only: rest_def length_map length_upt add_diff_cancel_right')
  then have "list_all2 (\<lambda>t m. 1 \<le> t \<and> t \<le> m) ds rest"
    unfolding list_all2_conv_all_nth using box len nth by auto
  then have "list_all2 (\<lambda>t m. 1 \<le> t \<and> t \<le> m) ?t ([?m0, ?m0] @ rest)"
    using ab a by simp
  then have mem: "?t \<in> set (groundings ([?m0, ?m0] @ rest) (initialGrounding (?ar + 2)))"
    by (rule groundings_cover) (simp_all add: lrest)
  have args: "map (\<lambda>k. ?t ! (k + 2)) [0..<?ar] = ds"
    using len by (simp add: list_eq_iff_nth_eq)
  have lt: "\<not> ?t ! 1 \<le> ?t ! 0" using ab by simp
  have "remdups [getSATLiteral st f (ds @ [a]) False True n,
                 getSATLiteral st f (ds @ [b]) False True n]
          \<in> set (if ?t ! 0 \<ge> ?t ! 1 then []
                  else
                    let args = map (\<lambda>k. ?t ! (k + 2)) [0..<?ar]
                    in addSATClause
                         [getSATLiteral st f (args @ [?t ! 0]) False True n,
                          getSATLiteral st f (args @ [?t ! 1]) False True n])"
    unfolding Let_def args using lt by (simp add: addSATClause_remdups del: remdups.simps)
  with mem show ?thesis
    unfolding functionalDefsOf_def Let_def rest_def
    by (intro concat_map_memI)
qed

lemma totality_clause_mem:
  assumes len: "length ds = functionArity st f"
    and box: "\<forall>i<length ds. 1 \<le> ds ! i \<and> ds ! i \<le> min (functionBounds st f (i + 1)) n"
  shows "remdups (map (\<lambda>e. getSATLiteral st f (ds @ [e]) True True n)
                      (map (\<lambda>j. of_nat j + 1) [0..<unat (min n (functionBounds st f 0))]))
           \<in> set (totalityDefsOf st n f)"
proof (cases "functionArity st f = 0")
  case True
  then show ?thesis
    using len by (simp add: totalityDefsOf_def Let_def addSATClause_remdups)
next
  case False
  let ?ar = "functionArity st f"
  let ?mins = "map (\<lambda>i. min (functionBounds st f (i + 1)) n) [0..<?ar]"
  have "list_all2 (\<lambda>t m. 1 \<le> t \<and> t \<le> m) ds ?mins"
    using box len by (simp add: list_all2_conv_all_nth)
  then have mem: "ds \<in> set (groundings ?mins (initialGrounding ?ar))"
    by (rule groundings_cover) (use False in simp_all)
  have args: "map (\<lambda>k. ds ! k) [0..<?ar] = ds"
    using len by (simp add: list_eq_iff_nth_eq)
  show ?thesis
    unfolding totalityDefsOf_def Let_def
    using mem args False
    by (auto simp: addSATClause_remdups intro!: image_eqI [where x = ds])
qed


lemma satisfies_clause:
  "satisfies asg cnf \<Longrightarrow> c \<in> set cnf \<Longrightarrow> \<exists>l\<in>set c. asg (var l) = polarity l"
  by (auto simp: satisfies_def list_all_iff list_ex_iff)

lemma getSATLiteral_sel:
  "var (getSATLiteral st f g pol isF n) = var (getSATLiteral st f g True isF n)"
  "polarity (getSATLiteral st f g pol isF n) = pol"
  by (simp_all add: getSATLiteral_def Let_def)

lemma encode_functional:
  "encode st n = Some cnf \<Longrightarrow> f < sig_functions st \<Longrightarrow> \<not> del_f st f \<Longrightarrow>
   set (functionalDefsOf st n f) \<subseteq> set cnf \<and> set (totalityDefsOf st n f) \<subseteq> set cnf"
  by (auto simp: encode_def addNewFunctionalDefs_def addNewTotalityDefs_def)

text \<open>
  Claim C1, as amended. In every satisfying assignment of the clauses built for size \<open>n\<close>,
  for every live function \<open>f\<close> and every argument tuple within the bounds of \<open>f\<close>, there is
  exactly one element \<open>e\<close> from 1 to \<open>min(n, fbounds[f][0])\<close> such that the variable for
  \<open>f(d) = e\<close> is true.
\<close>

theorem functionality_totality:
  assumes enc: "encode st n = Some cnf" and sat: "satisfies asg cnf"
    and live: "f < sig_functions st" "\<not> del_f st f"
    and len: "length ds = functionArity st f"
    and box: "\<forall>i<length ds. 1 \<le> ds ! i \<and> ds ! i \<le> min (functionBounds st f (i + 1)) n"
  shows "\<exists>!e. 1 \<le> e \<and> e \<le> min n (functionBounds st f 0)
              \<and> asg (var (getSATLiteral st f (ds @ [e]) True True n))"
proof -
  let ?P = "\<lambda>e. 1 \<le> e \<and> e \<le> min n (functionBounds st f 0)
              \<and> asg (var (getSATLiteral st f (ds @ [e]) True True n))"
  note sub = encode_functional [OF enc live]
  have ex: "\<exists>e. ?P e"
  proof -
    from totality_clause_mem [OF len box] sub
    have "remdups (map (\<lambda>e. getSATLiteral st f (ds @ [e]) True True n)
                      (map (\<lambda>j. of_nat j + 1) [0..<unat (min n (functionBounds st f 0))]))
            \<in> set cnf" by blast
    from satisfies_clause [OF sat this]
    obtain e where "e \<in> set (map (\<lambda>j. of_nat j + 1) [0..<unat (min n (functionBounds st f 0))])"
      and "asg (var (getSATLiteral st f (ds @ [e]) True True n))"
      by (auto simp: getSATLiteral_sel(2))
    then show ?thesis
      unfolding images_set by blast
  qed
  have uniq: "False" if a: "?P a" and b: "?P b" and ab: "a < b" for a b
  proof -
    have "b \<le> min (functionBounds st f 0) n" using b by (simp add: min.commute)
    from functional_clause_mem [OF len box _ ab this] a sub
    have "remdups [getSATLiteral st f (ds @ [a]) False True n,
                   getSATLiteral st f (ds @ [b]) False True n] \<in> set cnf"
      by blast
    from satisfies_clause [OF sat this]
    have "\<not> asg (var (getSATLiteral st f (ds @ [a]) False True n))
        \<or> \<not> asg (var (getSATLiteral st f (ds @ [b]) False True n))"
      by (auto simp: getSATLiteral_sel(2) split: if_splits)
    then show False
      using a b getSATLiteral_sel(1) [of st f _ False True n] by auto
  qed
  show ?thesis
  proof (rule ex_ex1I [OF ex])
    fix a b
    assume a: "?P a" and b: "?P b"
    show "a = b"
    proof (rule ccontr)
      assume "a \<noteq> b"
      then have "a < b \<or> b < a" by auto
      then show False using uniq [OF a b] uniq [OF b a] by blast
    qed
  qed
qed


theorem functionality_totality_witness:
  "encode exC1w 2
     = Some [[SATLiteral 1 False, SATLiteral 3 False], [SATLiteral 2 False, SATLiteral 4 False],
             [SATLiteral 1 True, SATLiteral 3 True], [SATLiteral 2 True, SATLiteral 4 True]]
   \<and> satisfies asgC1w
        [[SATLiteral 1 False, SATLiteral 3 False], [SATLiteral 2 False, SATLiteral 4 False],
         [SATLiteral 1 True, SATLiteral 3 True], [SATLiteral 2 True, SATLiteral 4 True]]
   \<and> (\<exists>!e. 1 \<le> e \<and> e \<le> min 2 (functionBounds exC1w 0 0)
             \<and> asgC1w (var (getSATLiteral exC1w 0 ([2] @ [e]) True True 2)))"
proof -
  have enc: "encode exC1w 2
     = Some [[SATLiteral 1 False, SATLiteral 3 False], [SATLiteral 2 False, SATLiteral 4 False],
             [SATLiteral 1 True, SATLiteral 3 True], [SATLiteral 2 True, SATLiteral 4 True]]"
    and sat: "satisfies asgC1w
        [[SATLiteral 1 False, SATLiteral 3 False], [SATLiteral 2 False, SATLiteral 4 False],
         [SATLiteral 1 True, SATLiteral 3 True], [SATLiteral 2 True, SATLiteral 4 True]]"
    and live: "0 < sig_functions exC1w" "\<not> del_f exC1w 0"
    and len: "length [2::u32] = functionArity exC1w 0"
    by code_simp+
  have box: "\<forall>i<length [2::u32]. 1 \<le> [2::u32] ! i \<and> [2] ! i \<le> min (functionBounds exC1w 0 (i + 1)) 2"
    by (simp add: exC1w_def emptyProblem_def UINT_MAX_def)
  show ?thesis
    using functionality_totality [OF enc sat live len box] enc sat by simp
qed

text \<open>
  The claim as stated, with \<open>e\<close> ranging over all of \<open>1..n\<close>, fails: for a constant whose
  sort is bounded by 1 the clauses at size 2 are the single totality clause \<open>[c = 1]\<close>, and
  the assignment that makes both \<open>c = 1\<close> and \<open>c = 2\<close> true satisfies them.
\<close>

theorem functionality_totality_counterexample:
  "fst (the (reset exC1 2))
   \<and> encode stC1 2 = Some [[SATLiteral 1 True]]
   \<and> satisfies asgC1 [[SATLiteral 1 True]]
   \<and> 0 < sig_functions stC1 \<and> \<not> del_f stC1 0 \<and> functionArity stC1 0 = 0
   \<and> (1::u32) \<le> 1 \<and> (1::u32) \<le> 2 \<and> asgC1 (var (getSATLiteral stC1 0 ([] @ [1]) True True 2))
   \<and> (1::u32) \<le> 2 \<and> (2::u32) \<le> 2 \<and> asgC1 (var (getSATLiteral stC1 0 ([] @ [2]) True True 2))
   \<and> (1::u32) \<noteq> 2"
  by code_simp

section \<open>The variable layout\<close>

lemma unat_UINT_MAX: "unat UINT_MAX = 2 ^ 32 - 1"
  by (simp add: UINT_MAX_def unsigned_minus_1_eq_mask mask_eq_exp_minus_1)

lemma no_overflow_add:
  "\<not> UINT_MAX - add < (offsets::u32) \<Longrightarrow> unat (offsets + add) = unat offsets + unat add"
proof -
  assume "\<not> UINT_MAX - add < offsets"
  then have "offsets \<le> UINT_MAX - add" by simp
  then have "unat offsets \<le> unat (UINT_MAX - add)" by (simp add: word_le_nat_alt)
  moreover have "add \<le> UINT_MAX" by (simp add: UINT_MAX_def)
  then have "unat (UINT_MAX - add) = unat UINT_MAX - unat add" by (rule unat_sub)
  ultimately have "unat offsets + unat add \<le> 2 ^ 32 - 1"
    using unsigned_less [of add, where 'a = nat] by (simp add: unat_UINT_MAX)
  then show ?thesis by (simp add: unat_add_lem [THEN iffD1])
qed

lemma unat_power_fit: "unat (n::u32) ^ e < 2 ^ 32 \<Longrightarrow> unat (n ^ e) = unat n ^ e"
proof -
  assume "unat n ^ e < 2 ^ 32"
  moreover have "n ^ e = of_nat (unat n ^ e)" by simp
  ultimately show ?thesis by (intro of_nat_inverse) simp_all
qed


lemma assignOffsets_total:
  "assignOffsets n k del ar fs offsets offs = (True, offsets', offs') \<Longrightarrow>
   \<forall>f\<in>set fs. \<not> del f \<longrightarrow> unat n ^ (ar f + k) < 2 ^ 32 \<Longrightarrow>
   unat offsets' = unat offsets + (\<Sum>f\<leftarrow>filter (\<lambda>f. \<not> del f) fs. unat n ^ (ar f + k))"
proof (induction fs arbitrary: offsets offs)
  case Nil
  then show ?case by simp
next
  case (Cons f fs)
  show ?case
  proof (cases "del f")
    case True
    then show ?thesis using Cons by simp
  next
    case False
    let ?add = "n ^ (ar f + k)"
    from Cons.prems(1) False have no: "\<not> UINT_MAX - ?add < offsets"
      and rest: "assignOffsets n k del ar fs (offsets + ?add) (offs(f := offsets)) = (True, offsets', offs')"
      by (auto simp: Let_def split: if_splits)
    have "unat (offsets + ?add) = unat offsets + unat n ^ (ar f + k)"
      using no_overflow_add [OF no] unat_power_fit [of n "ar f + k"] Cons.prems(2) False by simp
    then show ?thesis
      using Cons.IH [OF rest] Cons.prems(2) False by simp
  qed
qed

lemma assignOffsets_blocks:
  "assignOffsets n k del ar fs offsets offs = (True, offsets', offs') \<Longrightarrow>
   \<forall>f\<in>set fs. \<not> del f \<longrightarrow> unat n ^ (ar f + k) < 2 ^ 32 \<Longrightarrow> distinct fs \<Longrightarrow>
   (\<forall>f\<in>set fs. \<not> del f \<longrightarrow>
       unat offsets \<le> unat (offs' f) \<and> unat (offs' f) + unat n ^ (ar f + k) \<le> unat offsets')
   \<and> (\<forall>f\<in>set fs. \<forall>g\<in>set fs. \<not> del f \<and> \<not> del g \<and> f \<noteq> g \<longrightarrow>
         unat (offs' f) + unat n ^ (ar f + k) \<le> unat (offs' g)
         \<or> unat (offs' g) + unat n ^ (ar g + k) \<le> unat (offs' f))
   \<and> (\<forall>f. f \<notin> set fs \<longrightarrow> offs' f = offs f)
   \<and> unat offsets \<le> unat offsets'"
proof (induction fs arbitrary: offsets offs)
  case Nil
  then show ?case by simp
next
  case (Cons f fs)
  show ?case
  proof (cases "del f")
    case True
    then have "assignOffsets n k del ar fs offsets offs = (True, offsets', offs')"
      using Cons.prems(1) by simp
    from Cons.IH [OF this] Cons.prems(2,3) True show ?thesis by auto
  next
    case False
    let ?add = "n ^ (ar f + k)"
    from Cons.prems(1) False have no: "\<not> UINT_MAX - ?add < offsets"
      and rest: "assignOffsets n k del ar fs (offsets + ?add) (offs(f := offsets)) = (True, offsets', offs')"
      by (auto simp: Let_def split: if_splits)
    have step: "unat (offsets + ?add) = unat offsets + unat n ^ (ar f + k)"
      using no_overflow_add [OF no] unat_power_fit [of n "ar f + k"] Cons.prems(2) False by simp
    from Cons.IH [OF rest] Cons.prems(2,3)
    have IH1: "\<forall>g\<in>set fs. \<not> del g \<longrightarrow>
            unat (offsets + ?add) \<le> unat (offs' g) \<and> unat (offs' g) + unat n ^ (ar g + k) \<le> unat offsets'"
      and IH2: "\<forall>g\<in>set fs. \<forall>h\<in>set fs. \<not> del g \<and> \<not> del h \<and> g \<noteq> h \<longrightarrow>
            unat (offs' g) + unat n ^ (ar g + k) \<le> unat (offs' h)
            \<or> unat (offs' h) + unat n ^ (ar h + k) \<le> unat (offs' g)"
      and IH3: "\<forall>g. g \<notin> set fs \<longrightarrow> offs' g = (offs(f := offsets)) g"
      and IH4: "unat (offsets + ?add) \<le> unat offsets'"
      by auto
    have f: "offs' f = offsets" using IH3 Cons.prems(3) by simp
    show ?thesis
      using IH1 IH2 IH3 IH4 f step by (auto simp: fun_upd_def)
  qed
qed


lemma satVarLoop_index:
  "\<forall>g\<in>set gs. 1 \<le> g \<Longrightarrow>
   satVarLoop n v mult gs = v + mult * of_nat (tupleIndex (unat n) gs)"
proof (induction gs arbitrary: v mult)
  case Nil
  show ?case by simp
next
  case (Cons g gs)
  then have "1 \<le> unat g" by (simp add: word_le_nat_alt)
  then have g: "of_nat (unat g - 1) = g - 1" by (simp add: of_nat_diff)
  have "satVarLoop n v mult (g # gs)
      = v + mult * (g - 1) + mult * n * of_nat (tupleIndex (unat n) gs)"
    using Cons by simp
  also have "\<dots> = v + mult * of_nat (tupleIndex (unat n) (g # gs))"
  proof -
    have "(of_nat (tupleIndex (unat n) (g # gs)) :: u32)
        = of_nat (unat g - 1) + n * of_nat (tupleIndex (unat n) gs)"
      by simp
    then have eq: "(of_nat (tupleIndex (unat n) (g # gs)) :: u32)
        = (g - 1) + n * of_nat (tupleIndex (unat n) gs)"
      by (simp only: g)
    show ?thesis unfolding eq by (simp add: algebra_simps)
  qed
  finally show ?case .
qed

lemma tupleIndex_less:
  "\<forall>g\<in>set gs. 1 \<le> g \<and> g \<le> n \<Longrightarrow> 1 \<le> n \<Longrightarrow> tupleIndex (unat n) gs < unat n ^ length gs"
proof (induction gs)
  case Nil
  then show ?case by simp
next
  case (Cons g gs)
  let ?N = "unat n"
  from Cons.prems have g: "1 \<le> unat g" "unat g \<le> ?N" by (simp_all add: word_le_nat_alt)
  from Cons have "tupleIndex ?N gs + 1 \<le> ?N ^ length gs" by simp
  then have "?N * (tupleIndex ?N gs + 1) \<le> ?N * ?N ^ length gs" by (rule mult_le_mono2)
  then have "?N * tupleIndex ?N gs + ?N \<le> ?N ^ length (g # gs)" by (simp add: algebra_simps)
  moreover have "unat g - 1 < ?N" using g by simp
  ultimately show ?case by simp
qed

lemma tupleIndex_inj:
  "length gs = length hs \<Longrightarrow> \<forall>g\<in>set gs. 1 \<le> g \<and> g \<le> n \<Longrightarrow> \<forall>h\<in>set hs. 1 \<le> h \<and> h \<le> n \<Longrightarrow>
   tupleIndex (unat n) gs = tupleIndex (unat n) hs \<Longrightarrow> gs = hs"
proof (induction gs hs rule: list_induct2)
  case Nil
  show ?case by simp
next
  case (Cons g gs h hs)
  let ?N = "unat n"
  from Cons.prems have g: "1 \<le> unat g" "unat g \<le> ?N" and h: "1 \<le> unat h" "unat h \<le> ?N"
    by (simp_all add: word_le_nat_alt)
  then have lt: "unat g - 1 < ?N" "unat h - 1 < ?N" by simp_all
  from Cons.prems(3)
  have eq: "(unat g - 1) + ?N * tupleIndex ?N gs = (unat h - 1) + ?N * tupleIndex ?N hs" by simp
  from arg_cong [OF eq, of "\<lambda>x. x mod ?N"] lt have "unat g - 1 = unat h - 1" by simp
  with g h have "unat g = unat h" by simp
  then have gh: "g = h" by (simp add: word_unat_eq_iff)
  from arg_cong [OF eq, of "\<lambda>x. x div ?N"] lt have "tupleIndex ?N gs = tupleIndex ?N hs" by simp
  with Cons gh show ?case by simp
qed

lemma var_of_tuple:
  assumes t: "\<forall>g\<in>set t. 1 \<le> g \<and> g \<le> n" and n: "1 \<le> n"
    and fit: "unat off + unat n ^ length t < 2 ^ 32"
  shows "unat (satVarLoop n off 1 t) = unat off + tupleIndex (unat n) t"
proof -
  let ?i = "tupleIndex (unat n) t"
  have lt: "?i < unat n ^ length t" using t n by (rule tupleIndex_less)
  then have "?i < 2 ^ 32" using fit by simp
  then have "unat (of_nat ?i :: u32) = ?i" by (intro of_nat_inverse) simp_all
  moreover have "satVarLoop n off 1 t = off + of_nat ?i"
    using satVarLoop_index [of t n off 1] t by simp
  ultimately show ?thesis
    using lt fit unat_add_lem [of off "of_nat ?i :: u32"] by simp
qed


lemma reset_components:
  assumes "reset st n = Some (True, st')"
  obtains o1 o2 where
    "assignOffsets n 2 (del_f st) (functionArity st) [0..<sig_functions st] 1 (f_offsets st)
       = (True, o1, f_offsets st')"
    "assignOffsets n 1 (del_p st) (predicateArity st) [1..<sig_predicates st] o1 (p_offsets st)
       = (True, o2, p_offsets st')"
    "solverVarCount st' = Some (o2 + 1)"
  using assms
  by (auto simp: reset_def split: prod.splits if_splits option.splits)

lemma reset_blocks:
  assumes r: "reset st n = Some (True, st')"
    and fitf: "\<forall>f < sig_functions st. \<not> del_f st f \<longrightarrow> unat n ^ (functionArity st f + 2) < 2 ^ 32"
    and fitp: "\<forall>p < sig_predicates st. \<not> del_p st p \<longrightarrow> unat n ^ (predicateArity st p + 1) < 2 ^ 32"
  shows "\<exists>offsets.
      solverVarCount st' = Some (offsets + 1)
    \<and> unat offsets
        = 1 + (\<Sum>f\<leftarrow>filter (\<lambda>f. \<not> del_f st f) [0..<sig_functions st]. unat n ^ (functionArity st f + 2))
            + (\<Sum>p\<leftarrow>filter (\<lambda>p. \<not> del_p st p) [1..<sig_predicates st]. unat n ^ (predicateArity st p + 1))
    \<and> (\<forall>isF f. liveSymbol st isF f \<longrightarrow>
          1 \<le> unat (symbolOffset st' isF f)
        \<and> unat (symbolOffset st' isF f) + blockSize st isF f n \<le> unat offsets)
    \<and> (\<forall>isF f isF' f'. liveSymbol st isF f \<and> liveSymbol st isF' f' \<and> (isF, f) \<noteq> (isF', f') \<longrightarrow>
          unat (symbolOffset st' isF f) + blockSize st isF f n \<le> unat (symbolOffset st' isF' f')
        \<or> unat (symbolOffset st' isF' f') + blockSize st isF' f' n \<le> unat (symbolOffset st' isF f))"
proof -
  from r obtain o1 o2 where
    af: "assignOffsets n 2 (del_f st) (functionArity st) [0..<sig_functions st] 1 (f_offsets st)
       = (True, o1, f_offsets st')"
    and ap: "assignOffsets n 1 (del_p st) (predicateArity st) [1..<sig_predicates st] o1 (p_offsets st)
       = (True, o2, p_offsets st')"
    and vc: "solverVarCount st' = Some (o2 + 1)"
    by (rule reset_components)
  have ff: "\<forall>f\<in>set [0..<sig_functions st]. \<not> del_f st f \<longrightarrow> unat n ^ (functionArity st f + 2) < 2 ^ 32"
    using fitf by simp
  have fp: "\<forall>p\<in>set [1..<sig_predicates st]. \<not> del_p st p \<longrightarrow> unat n ^ (predicateArity st p + 1) < 2 ^ 32"
    using fitp by simp
  note tf = assignOffsets_total [OF af ff]
  note tp = assignOffsets_total [OF ap fp]
  from assignOffsets_blocks [OF af ff]
  have F1: "\<forall>f < sig_functions st. \<not> del_f st f \<longrightarrow>
          1 \<le> unat (f_offsets st' f) \<and> unat (f_offsets st' f) + unat n ^ (functionArity st f + 2) \<le> unat o1"
    and F2: "\<forall>f < sig_functions st. \<forall>g < sig_functions st. \<not> del_f st f \<and> \<not> del_f st g \<and> f \<noteq> g \<longrightarrow>
          unat (f_offsets st' f) + unat n ^ (functionArity st f + 2) \<le> unat (f_offsets st' g)
        \<or> unat (f_offsets st' g) + unat n ^ (functionArity st g + 2) \<le> unat (f_offsets st' f)"
    and F4: "1 \<le> unat o1"
    by simp_all
  from assignOffsets_blocks [OF ap fp]
  have P1: "\<forall>p. 1 \<le> p \<and> p < sig_predicates st \<longrightarrow> \<not> del_p st p \<longrightarrow>
          unat o1 \<le> unat (p_offsets st' p) \<and> unat (p_offsets st' p) + unat n ^ (predicateArity st p + 1) \<le> unat o2"
    and P2: "\<forall>p q. 1 \<le> p \<and> p < sig_predicates st \<and> 1 \<le> q \<and> q < sig_predicates st
            \<and> \<not> del_p st p \<and> \<not> del_p st q \<and> p \<noteq> q \<longrightarrow>
          unat (p_offsets st' p) + unat n ^ (predicateArity st p + 1) \<le> unat (p_offsets st' q)
        \<or> unat (p_offsets st' q) + unat n ^ (predicateArity st q + 1) \<le> unat (p_offsets st' p)"
    and P4: "unat o1 \<le> unat o2"
    by simp_all
  have total: "unat o2
        = 1 + (\<Sum>f\<leftarrow>filter (\<lambda>f. \<not> del_f st f) [0..<sig_functions st]. unat n ^ (functionArity st f + 2))
            + (\<Sum>p\<leftarrow>filter (\<lambda>p. \<not> del_p st p) [1..<sig_predicates st]. unat n ^ (predicateArity st p + 1))"
    using tf tp by simp
  have inside: "1 \<le> unat (symbolOffset st' isF f)
        \<and> unat (symbolOffset st' isF f) + blockSize st isF f n \<le> unat o2"
    if "liveSymbol st isF f" for isF f
  proof (cases isF)
    case True
    then show ?thesis
      using that F1 P4 by (auto simp: liveSymbol_def symbolOffset_def blockSize_def)
  next
    case False
    then show ?thesis
      using that P1 F4 by (fastforce simp: liveSymbol_def symbolOffset_def blockSize_def)
  qed
  have apart: "unat (symbolOffset st' isF f) + blockSize st isF f n \<le> unat (symbolOffset st' isF' f')
        \<or> unat (symbolOffset st' isF' f') + blockSize st isF' f' n \<le> unat (symbolOffset st' isF f)"
    if l: "liveSymbol st isF f" "liveSymbol st isF' f'" and ne: "(isF, f) \<noteq> (isF', f')"
    for isF f isF' f'
  proof (cases isF; cases isF')
    assume "isF" "isF'"
    then show ?thesis
      using l ne F2 by (auto simp: liveSymbol_def symbolOffset_def blockSize_def)
  next
    assume "isF" "\<not> isF'"
    then have "unat (f_offsets st' f) + unat n ^ (functionArity st f + 2) \<le> unat o1"
      and "unat o1 \<le> unat (p_offsets st' f')"
      using l F1 P1 by (auto simp: liveSymbol_def)
    then show ?thesis
      using \<open>isF\<close> \<open>\<not> isF'\<close> by (simp add: symbolOffset_def blockSize_def)
  next
    assume "\<not> isF" "isF'"
    then have "unat (f_offsets st' f') + unat n ^ (functionArity st f' + 2) \<le> unat o1"
      and "unat o1 \<le> unat (p_offsets st' f)"
      using l F1 P1 by (auto simp: liveSymbol_def)
    then show ?thesis
      using \<open>\<not> isF\<close> \<open>isF'\<close> by (simp add: symbolOffset_def blockSize_def)
  next
    assume "\<not> isF" "\<not> isF'"
    then show ?thesis
      using l ne P2 by (auto simp: liveSymbol_def symbolOffset_def blockSize_def)
  qed
  show ?thesis
    using vc total inside apart by blast
qed


lemma var_in_block:
  assumes live: "liveSymbol st isF f" and inb: "inBounds st isF f n t" and n: "1 \<le> n"
    and blk: "unat (symbolOffset st' isF f) + blockSize st isF f n \<le> unat (offsets::u32)"
  shows "unat (var (getSATLiteral st' f t True isF n))
           = unat (symbolOffset st' isF f) + tupleIndex (unat n) t
       \<and> tupleIndex (unat n) t < blockSize st isF f n"
proof -
  let ?N = "unat n"
  have N: "1 \<le> ?N" using n by (simp add: word_le_nat_alt)
  have t: "\<forall>g\<in>set t. 1 \<le> g \<and> g \<le> n" and len: "length t = tupleLength st isF f"
    using inb by (simp_all add: inBounds_def list_all_iff)
  have le: "?N ^ length t \<le> blockSize st isF f n"
    using N by (auto simp: len tupleLength_def blockSize_def intro: power_increasing)
  have "unat offsets < 2 ^ 32" using unsigned_less [of offsets, where 'a = nat] by simp
  then have fit: "unat (symbolOffset st' isF f) + ?N ^ length t < 2 ^ 32"
    using blk le by simp
  have "var (getSATLiteral st' f t True isF n) = satVarLoop n (symbolOffset st' isF f) 1 t"
    by (simp add: getSATLiteral_def symbolOffset_def Let_def)
  then show ?thesis
    using var_of_tuple [OF t n fit] tupleIndex_less [OF t n] le by simp
qed

text \<open>
  Claim C2, as amended. For every size \<open>n\<close> of at least 1 at which \<open>reset\<close> succeeds and at
  which every power it computes is below \<open>2^32\<close> (\<open>n^(k+2)\<close> for each live function of
  arity \<open>k\<close>, \<open>n^(k+1)\<close> for each live predicate of arity \<open>k\<close>), \<open>reset\<close> sets aside for each
  live function of arity \<open>k\<close> a block of \<open>n^(k+2)\<close> variables and for each live predicate of
  arity \<open>k\<close> a block of \<open>n^(k+1)\<close>, the blocks lying side by side from variable 1 on; the
  count handed to the solver is \<open>offsets + 1\<close>, where \<open>offsets\<close> is 1 plus the sum of the
  block sizes; and the variable of every in-bounds tuple lies among the first \<open>n^(k+1)\<close>
  (for a predicate \<open>n^k\<close>) variables of its symbol's block, hence from 1 to below
  \<open>offsets\<close>, and different symbols or tuples get different variables. The condition on
  the powers does not follow from the success of \<open>reset\<close>, which only compares the
  converted powers with the room left.
\<close>

theorem reset_layout:
  assumes r: "reset st n = Some (True, st')" and n: "1 \<le> n"
    and fitf: "\<forall>f < sig_functions st. \<not> del_f st f \<longrightarrow> unat n ^ (functionArity st f + 2) < 2 ^ 32"
    and fitp: "\<forall>p < sig_predicates st. \<not> del_p st p \<longrightarrow> unat n ^ (predicateArity st p + 1) < 2 ^ 32"
  shows "\<exists>offsets.
      solverVarCount st' = Some (offsets + 1)
    \<and> unat offsets
        = 1 + (\<Sum>f\<leftarrow>filter (\<lambda>f. \<not> del_f st f) [0..<sig_functions st]. unat n ^ (functionArity st f + 2))
            + (\<Sum>p\<leftarrow>filter (\<lambda>p. \<not> del_p st p) [1..<sig_predicates st]. unat n ^ (predicateArity st p + 1))
    \<and> (\<forall>isF f. liveSymbol st isF f \<longrightarrow>
          1 \<le> unat (symbolOffset st' isF f)
        \<and> unat (symbolOffset st' isF f) + blockSize st isF f n \<le> unat offsets)
    \<and> (\<forall>isF f isF' f'. liveSymbol st isF f \<and> liveSymbol st isF' f' \<and> (isF, f) \<noteq> (isF', f') \<longrightarrow>
          unat (symbolOffset st' isF f) + blockSize st isF f n \<le> unat (symbolOffset st' isF' f')
        \<or> unat (symbolOffset st' isF' f') + blockSize st isF' f' n \<le> unat (symbolOffset st' isF f))
    \<and> (\<forall>isF f t. liveSymbol st isF f \<and> inBounds st isF f n t \<longrightarrow>
          unat (symbolOffset st' isF f) \<le> unat (var (getSATLiteral st' f t True isF n))
        \<and> unat (var (getSATLiteral st' f t True isF n))
            < unat (symbolOffset st' isF f) + unat n ^ tupleLength st isF f
        \<and> 1 \<le> unat (var (getSATLiteral st' f t True isF n))
        \<and> unat (var (getSATLiteral st' f t True isF n)) < unat offsets)
    \<and> (\<forall>isF f t isF' f' t'.
          liveSymbol st isF f \<and> inBounds st isF f n t
        \<and> liveSymbol st isF' f' \<and> inBounds st isF' f' n t'
        \<and> var (getSATLiteral st' f t True isF n) = var (getSATLiteral st' f' t' True isF' n) \<longrightarrow>
          isF = isF' \<and> f = f' \<and> t = t')"
proof -
  from reset_blocks [OF r fitf fitp] obtain offsets where
    vc: "solverVarCount st' = Some (offsets + 1)"
    and total: "unat offsets
        = 1 + (\<Sum>f\<leftarrow>filter (\<lambda>f. \<not> del_f st f) [0..<sig_functions st]. unat n ^ (functionArity st f + 2))
            + (\<Sum>p\<leftarrow>filter (\<lambda>p. \<not> del_p st p) [1..<sig_predicates st]. unat n ^ (predicateArity st p + 1))"
    and inside: "\<And>isF f. liveSymbol st isF f \<Longrightarrow>
          1 \<le> unat (symbolOffset st' isF f)
        \<and> unat (symbolOffset st' isF f) + blockSize st isF f n \<le> unat offsets"
    and apart: "\<And>isF f isF' f'. liveSymbol st isF f \<Longrightarrow> liveSymbol st isF' f' \<Longrightarrow>
          (isF, f) \<noteq> (isF', f') \<Longrightarrow>
          unat (symbolOffset st' isF f) + blockSize st isF f n \<le> unat (symbolOffset st' isF' f')
        \<or> unat (symbolOffset st' isF' f') + blockSize st isF' f' n \<le> unat (symbolOffset st' isF f)"
    by blast
  have vb: "unat (var (getSATLiteral st' f t True isF n))
           = unat (symbolOffset st' isF f) + tupleIndex (unat n) t
       \<and> tupleIndex (unat n) t < blockSize st isF f n
       \<and> tupleIndex (unat n) t < unat n ^ tupleLength st isF f"
    if "liveSymbol st isF f" "inBounds st isF f n t" for isF f t
  proof -
    have "\<forall>g\<in>set t. 1 \<le> g \<and> g \<le> n" "length t = tupleLength st isF f"
      using that(2) by (simp_all add: inBounds_def list_all_iff)
    then have "tupleIndex (unat n) t < unat n ^ tupleLength st isF f"
      using tupleIndex_less [of t n] n by simp
    moreover have "unat (symbolOffset st' isF f) + blockSize st isF f n \<le> unat offsets"
      using inside [OF that(1)] by simp
    ultimately show ?thesis
      using var_in_block [OF that n, of st' offsets] by simp
  qed
  have range: "unat (symbolOffset st' isF f) \<le> unat (var (getSATLiteral st' f t True isF n))
        \<and> unat (var (getSATLiteral st' f t True isF n))
            < unat (symbolOffset st' isF f) + unat n ^ tupleLength st isF f
        \<and> 1 \<le> unat (var (getSATLiteral st' f t True isF n))
        \<and> unat (var (getSATLiteral st' f t True isF n)) < unat offsets"
    if "liveSymbol st isF f" "inBounds st isF f n t" for isF f t
    using vb [OF that] inside [OF that(1)] by simp
  have inj: "isF = isF' \<and> f = f' \<and> t = t'"
    if l: "liveSymbol st isF f" "inBounds st isF f n t"
      and l': "liveSymbol st isF' f'" "inBounds st isF' f' n t'"
      and eq: "var (getSATLiteral st' f t True isF n) = var (getSATLiteral st' f' t' True isF' n)"
    for isF f t isF' f' t'
  proof -
    note v = vb [OF l] and v' = vb [OF l']
    have same: "(isF, f) = (isF', f')"
    proof (rule ccontr)
      assume "(isF, f) \<noteq> (isF', f')"
      from apart [OF l(1) l'(1) this] v v' eq show False by simp
    qed
    then have "tupleIndex (unat n) t = tupleIndex (unat n) t'"
      using v v' eq by simp
    moreover have "length t = length t'"
      using l(2) l'(2) same by (simp add: inBounds_def)
    moreover have "\<forall>g\<in>set t. 1 \<le> g \<and> g \<le> n" "\<forall>g\<in>set t'. 1 \<le> g \<and> g \<le> n"
      using l(2) l'(2) by (simp_all add: inBounds_def list_all_iff)
    ultimately have "t = t'" by (intro tupleIndex_inj [of t t' n])
    with same show ?thesis by simp
  qed
  show ?thesis
    using vc total inside apart range inj by blast
qed

theorem reset_layout_witness:
  "reset (exC10\<lparr>maxModelSize := 5\<rparr>) 2 = Some (True, stC10)
   \<and> solverVarCount stC10 = Some (13 + 1)
   \<and> unat (13::u32) = 1 + (2 ^ 2 + 2 ^ 3) + 0
   \<and> liveSymbol (exC10\<lparr>maxModelSize := 5\<rparr>) True 0
   \<and> inBounds (exC10\<lparr>maxModelSize := 5\<rparr>) True 0 2 [2]
   \<and> var (getSATLiteral stC10 0 [2] True True 2) = 2
   \<and> liveSymbol (exC10\<lparr>maxModelSize := 5\<rparr>) True 1
   \<and> inBounds (exC10\<lparr>maxModelSize := 5\<rparr>) True 1 2 [2, 2]
   \<and> var (getSATLiteral stC10 1 [2, 2] True True 2) = 8"
proof -
  let ?ex = "exC10\<lparr>maxModelSize := 5\<rparr>"
  have fitf: "\<forall>f < sig_functions ?ex. \<not> del_f ?ex f \<longrightarrow> unat (2::u32) ^ (functionArity ?ex f + 2) < 2 ^ 32"
    and fitp: "\<forall>p < sig_predicates ?ex. \<not> del_p ?ex p \<longrightarrow> unat (2::u32) ^ (predicateArity ?ex p + 1) < 2 ^ 32"
    by (simp_all add: exC10_def emptyProblem_def)
  have n: "(1::u32) \<le> 2" by simp
  have "solverVarCount stC10 = Some (13 + 1)"
       "unat (13::u32) = 1 + (2 ^ 2 + 2 ^ 3) + 0"
       "liveSymbol ?ex True 0" "inBounds ?ex True 0 2 [2]"
       "var (getSATLiteral stC10 0 [2] True True 2) = 2"
       "liveSymbol ?ex True 1" "inBounds ?ex True 1 2 [2, 2]"
       "var (getSATLiteral stC10 1 [2, 2] True True 2) = 8"
    by code_simp+
  then show ?thesis
    using reset_layout [OF reset_exC10 n fitf fitp] reset_exC10 by simp
qed

text \<open>
  The claim as stated fails: for two constants at size 2 the blocks have 4 variables each
  (offsets 1 and 5) and the solver is given the count 10, where the claim has blocks of 2
  and a total of 5; for the empty signature the solver is given 2, where the claim has 1;
  and for two constants at size 65536, where the power \<open>65536^2\<close> no longer fits into 32
  bits, \<open>reset\<close> succeeds with both blocks at offset 1, so that the two constants share
  their variables.
\<close>

theorem reset_layout_counterexample:
  "fst (the (reset exC2 2))
   \<and> functionArity exC2 0 = 0 \<and> f_offsets stC2 0 = 1 \<and> f_offsets stC2 1 = 5
   \<and> solverVarCount stC2 = Some 10
   \<and> totalVarsAsSpecified exC2 2 = 5
   \<and> solverVarCount (snd (the (reset emptyProblem 2))) = Some 2
   \<and> totalVarsAsSpecified emptyProblem 2 = 1
   \<and> fst (the (reset exC2 65536))
   \<and> solverVarCount (snd (the (reset exC2 65536))) = Some 2
   \<and> var (getSATLiteral (snd (the (reset exC2 65536))) 0 [1] True True 65536) = 1
   \<and> var (getSATLiteral (snd (the (reset exC2 65536))) 1 [1] True True 65536) = 1"
  by code_simp

end
